theory Spec2Isabelle
  imports Main
begin

section \<open>JavaScript values\<close>

text \<open>
  A JavaScript string is a \<^typ>\<open>string\<close>: one \<^typ>\<open>char\<close> per code unit, for the
  strings whose code units lie in U+0000..U+00FF. A value that the code tests for
  presence before use (\<open>pageDescription\<close>, a violation's \<open>impact\<close>, the result's
  \<open>url\<close>) is a \<open>jsval\<close>.
\<close>

datatype jsval = Undefined | Null | Str string

text \<open>Truthiness, as in \<open>!value\<close> and \<open>value && ...\<close>: the empty string is falsy.\<close>

fun truthy :: "jsval \<Rightarrow> bool" where
  "truthy (Str s) = (s \<noteq> [])"
| "truthy Undefined = False"
| "truthy Null = False"

text \<open>A value inside a template literal, \<open>`${v}`\<close>.\<close>

fun template :: "jsval \<Rightarrow> string" where
  "template (Str s) = s"
| "template Undefined = ''undefined''"
| "template Null = ''null''"

definition digit_char :: "nat \<Rightarrow> char" where
  "digit_char d = char_of (48 + d)"

text \<open>A non-negative integer inside a template literal: its decimal digits.\<close>

fun show_nat :: "nat \<Rightarrow> string" where
  "show_nat n = (if n < 10 then [digit_char n] else show_nat (n div 10) @ [digit_char (n mod 10)])"

declare show_nat.simps [simp del]

text \<open>\<open>Array.prototype.join\<close> on an array of strings.\<close>

fun join :: "string \<Rightarrow> string list \<Rightarrow> string" where
  "join sep [] = []"
| "join sep [x] = x"
| "join sep (x # y # ys) = x @ sep @ join sep (y # ys)"

definition newline :: string where
  "newline = [char_of (10 :: nat)]"

section \<open>Data model\<close>

text \<open>
  One entry of \<open>AxeResults.violations\<close>. The engine declares \<open>impact\<close> as one of the
  four levels, \<open>null\<close> or absent; the model admits any string, so that an unrecognised
  level can be written down. Of \<open>nodes\<close> the code reads the length only.
\<close>

record violation =
  id_v :: string
  description :: string
  impact :: jsval
  helpUrl :: string
  nodes :: "string list"

text \<open>The part of \<open>AxeResults\<close> the code reads: \<open>violations\<close> (\<open>None\<close> when absent) and \<open>url\<close>.\<close>

record AxeResults =
  violations :: "violation list option"
  url :: jsval

text \<open>\<open>Record<A11yFailImpact, number>\<close>: the four buckets.\<close>

record counts =
  critical :: nat
  serious :: nat
  moderate :: nat
  minor :: nat

text \<open>
  \<open>failImpacts\<close> as the caller passes it: the type says an array of the four levels, the
  run-time check admits anything, so the array holds arbitrary strings and a value that
  is no array at all is possible.
\<close>

datatype impacts_arg = NotArray | Array "string list"

record RunA11yOptions =
  page :: nat
  pageDescription :: jsval
  include_sel :: "string list option"
  exclude_sel :: "string list option"
  tags :: "string list option"
  disableRules :: "string list option"
  failOnViolations :: "bool option"
  failImpacts :: "impacts_arg option"
  outputDir :: "string option"
  reporterOptions :: "(string \<times> string) list option"
  generateHtmlReport :: "bool option"
  generateJsonReport :: "bool option"
  logSummary :: "bool option"

definition DEFAULT_TAGS :: "string list" where
  "DEFAULT_TAGS = [''wcag2a'', ''wcag2aa'', ''wcag21a'', ''wcag21aa'']"

definition DEFAULT_FAIL_IMPACTS :: "string list" where
  "DEFAULT_FAIL_IMPACTS = [''critical'', ''serious'', ''moderate'', ''minor'']"

definition DEFAULT_OUTPUT_DIR :: string where
  "DEFAULT_OUTPUT_DIR = ''artifacts/accessibility''"

text \<open>
  Every \<open>throw\<close> of the module is a plain \<open>Error\<close> with a message; the constructor records
  which throw site raised it. \<open>AccessibilityViolationsFound\<close> holds, next to the message,
  the failing violations that the message itemises. \<open>ScanEngineFailure\<close> and \<open>FsError\<close>
  are the errors of \<open>builder.analyze()\<close> and \<open>fs.mkdir\<close>, which the code lets through.
\<close>

datatype error =
  InvalidConfiguration string
| FsError string
| ScanEngineFailure string
| ReportWriteFailure string
| AccessibilityViolationsFound "violation list" string

section \<open>Helpers\<close>

fun validatePageDescription :: "jsval \<Rightarrow> error + string" where
  "validatePageDescription (Str s) =
     (if s = [] then Inl (InvalidConfiguration ''pageDescription is required and must be a non-empty string'')
      else Inr s)"
| "validatePageDescription v =
     Inl (InvalidConfiguration ''pageDescription is required and must be a non-empty string'')"

subsection \<open>reportBaseName\<close>

text \<open>\<open>String.prototype.toLowerCase\<close> on one code unit below U+0100.\<close>

definition toLowerCase_char :: "char \<Rightarrow> char" where
  "toLowerCase_char c =
     (let n = (of_char c :: nat) in
      if (65 \<le> n \<and> n \<le> 90) \<or> (192 \<le> n \<and> n \<le> 222 \<and> n \<noteq> 215) then char_of (n + 32) else c)"

definition toLowerCase :: "string \<Rightarrow> string" where
  "toLowerCase s = map toLowerCase_char s"

text \<open>The class \<open>\s\<close> below U+0100: tab, line feed, vertical tab, form feed, carriage
  return, space and no-break space.\<close>

definition is_space :: "char \<Rightarrow> bool" where
  "is_space c = ((of_char c :: nat) \<in> {9, 10, 11, 12, 13, 32, 160})"

text \<open>\<open>.replace(/\s+/g, "-")\<close>: each maximal run of white space becomes one hyphen.\<close>

function replace_spaces :: "string \<Rightarrow> string" where
  "replace_spaces [] = []"
| "replace_spaces (c # cs) =
     (if is_space c then CHR ''-'' # replace_spaces (dropWhile is_space cs)
      else c # replace_spaces cs)"
  by pat_completeness auto
termination
  by (relation "measure length") (auto simp: less_Suc_eq_le length_dropWhile_le)

text \<open>The class \<open>[a-z0-9_-]\<close>.\<close>

definition is_name_char :: "char \<Rightarrow> bool" where
  "is_name_char c =
     (let n = (of_char c :: nat) in
      (97 \<le> n \<and> n \<le> 122) \<or> (48 \<le> n \<and> n \<le> 57) \<or> c = CHR ''_'' \<or> c = CHR ''-'')"

text \<open>\<open>.replace(/[^a-z0-9_-]/g, "")\<close>.\<close>

definition strip_unsafe :: "string \<Rightarrow> string" where
  "strip_unsafe s = filter is_name_char s"

text \<open>
  The reading of the clock, \<open>new Date()\<close>, as its UTC fields, the month counted from 1
  as it is printed. \<open>toISOString\<close> prints them zero-padded,
  \<open>YYYY-MM-DDTHH:mm:ss.sssZ\<close>, and a year outside 0..9999 with a sign and six digits.
\<close>

record date =
  year :: int
  month :: nat
  day :: nat
  hours :: nat
  minutes :: nat
  seconds :: nat
  milliseconds :: nat

fun pad_digits :: "nat \<Rightarrow> nat \<Rightarrow> string" where
  "pad_digits 0 n = []"
| "pad_digits (Suc w) n = pad_digits w (n div 10) @ [digit_char (n mod 10)]"

definition year_string :: "int \<Rightarrow> string" where
  "year_string y =
     (if 0 \<le> y \<and> y \<le> 9999 then pad_digits 4 (nat y)
      else (if y < 0 then ''-'' else ''+'') @ pad_digits 6 (nat \<bar>y\<bar>))"

definition toISOString :: "date \<Rightarrow> string" where
  "toISOString d =
     year_string (year d) @ ''-'' @ pad_digits 2 (month d) @ ''-'' @ pad_digits 2 (day d) @ ''T'' @
     pad_digits 2 (hours d) @ '':'' @ pad_digits 2 (minutes d) @ '':'' @ pad_digits 2 (seconds d) @
     ''.'' @ pad_digits 3 (milliseconds d) @ ''Z''"

text \<open>\<open>.replace(/[:.]/g, "-")\<close>.\<close>

definition replace_colon_dot :: "string \<Rightarrow> string" where
  "replace_colon_dot s = map (\<lambda>c. if c = CHR '':'' \<or> c = CHR ''.'' then CHR ''-'' else c) s"

text \<open>\<open>reportBaseName\<close>, with the reading of the clock as an argument.\<close>

definition reportBaseName :: "date \<Rightarrow> string \<Rightarrow> string" where
  "reportBaseName now desc =
     (let normalized = strip_unsafe (replace_spaces (toLowerCase desc));
          ts = replace_colon_dot (toISOString now)
      in normalized @ ''-'' @ ts)"

subsection \<open>countByImpact and filterViolationsByImpact\<close>

text \<open>
  \<open>if (impact in counts) counts[impact] += 1\<close>. For a name that \<open>counts\<close> inherits
  (\<open>toString\<close>, \<open>constructor\<close>, ...) the test holds as well and the assignment makes a
  new property; the four buckets, which are all the callers read, stay as they are.
\<close>

definition increment :: "counts \<Rightarrow> string \<Rightarrow> counts" where
  "increment c k =
     (if k = ''critical'' then c\<lparr>critical := critical c + 1\<rparr>
      else if k = ''serious'' then c\<lparr>serious := serious c + 1\<rparr>
      else if k = ''moderate'' then c\<lparr>moderate := moderate c + 1\<rparr>
      else if k = ''minor'' then c\<lparr>minor := minor c + 1\<rparr>
      else c)"

text \<open>The body of the loop, then the loop over \<open>results.violations ?? []\<close>.\<close>

definition count_step :: "counts \<Rightarrow> violation \<Rightarrow> counts" where
  "count_step c v =
     (if \<not> truthy (impact v) then c
      else case impact v of Str k \<Rightarrow> increment c k | _ \<Rightarrow> c)"

fun count_loop :: "counts \<Rightarrow> violation list \<Rightarrow> counts" where
  "count_loop c [] = c"
| "count_loop c (v # vs) = count_loop (count_step c v) vs"

definition violations_or_empty :: "AxeResults \<Rightarrow> violation list" where
  "violations_or_empty results = (case violations results of None \<Rightarrow> [] | Some vs \<Rightarrow> vs)"

definition countByImpact :: "AxeResults \<Rightarrow> counts" where
  "countByImpact results =
     count_loop \<lparr>critical = 0, serious = 0, moderate = 0, minor = 0\<rparr> (violations_or_empty results)"

text \<open>\<open>impactSet.has(violation.impact)\<close>.\<close>

fun has_impact :: "string list \<Rightarrow> jsval \<Rightarrow> bool" where
  "has_impact impacts (Str k) = (k \<in> set impacts)"
| "has_impact impacts v = False"

definition filterViolationsByImpact :: "AxeResults \<Rightarrow> string list \<Rightarrow> violation list" where
  "filterViolationsByImpact results impacts =
     (if impacts = [] then []
      else filter (\<lambda>v. truthy (impact v) \<and> has_impact impacts (impact v)) (violations_or_empty results))"

definition validImpacts :: "string list" where
  "validImpacts = [''critical'', ''serious'', ''moderate'', ''minor'']"

fun validateFailImpacts :: "impacts_arg \<Rightarrow> error + string list" where
  "validateFailImpacts NotArray = Inl (InvalidConfiguration ''failImpacts must be an array'')"
| "validateFailImpacts (Array impacts) =
     (let invalidImpacts = filter (\<lambda>i. i \<notin> set validImpacts) impacts in
      if length invalidImpacts > 0
      then Inl (InvalidConfiguration
             (''Invalid impact levels: '' @ join '', '' invalidImpacts @
              ''. Valid values are: '' @ join '', '' validImpacts))
      else Inr impacts)"

section \<open>The world outside the module\<close>

text \<open>
  The scan engine's builder, as the configuration that the calls \<open>include\<close>,
  \<open>exclude\<close>, \<open>disableRules\<close> and \<open>withTags\<close> have put into it.
\<close>

record builder =
  b_page :: nat
  b_include :: "string list"
  b_exclude :: "string list"
  b_disabled :: "string list"
  b_tags :: "string list"

definition builder_include :: "builder \<Rightarrow> string \<Rightarrow> builder" where
  "builder_include b selector = b\<lparr>b_include := b_include b @ [selector]\<rparr>"

definition builder_exclude :: "builder \<Rightarrow> string \<Rightarrow> builder" where
  "builder_exclude b selector = b\<lparr>b_exclude := b_exclude b @ [selector]\<rparr>"

definition builder_disableRules :: "builder \<Rightarrow> string list \<Rightarrow> builder" where
  "builder_disableRules b rules = b\<lparr>b_disabled := b_disabled b @ rules\<rparr>"

definition builder_withTags :: "builder \<Rightarrow> string list \<Rightarrow> builder" where
  "builder_withTags b ts = b\<lparr>b_tags := ts\<rparr>"

text \<open>
  The calls the module makes to the outside, in the order it makes them: \<open>fs.mkdir\<close>
  with its \<open>recursive\<close> flag, \<open>builder.analyze()\<close>, \<open>console.log\<close>,
  \<open>createHtmlReport\<close> with the results and its options (a later entry of the list
  overrides an earlier one of the same key, as the spread does) and \<open>fs.writeFile\<close> with
  the path and the results it serialises.
\<close>

datatype call =
  Mkdir string bool
| Analyze builder
| ConsoleLog string
| CreateHtmlReport AxeResults "(string \<times> string) list"
| WriteFile string AxeResults

text \<open>
  What the outside answers during one run: the working directory, \<open>path.join\<close>, the
  error \<open>fs.mkdir\<close> meets when it has to create the directory (\<open>None\<close>: it creates
  it), what \<open>analyze\<close> resolves to or rejects with, the error \<open>createHtmlReport\<close>
  throws, the error \<open>fs.writeFile\<close> rejects with, and the reading of the clock.
\<close>

record env =
  cwd :: string
  path_join :: "string \<Rightarrow> string \<Rightarrow> string"
  mkdir_error :: "string option"
  analyze_outcome :: "string + AxeResults"
  createHtmlReport_error :: "string option"
  writeFile_error :: "string option"
  now :: date

text \<open>The state a run changes: the directories that exist and the calls made so far.\<close>

record world =
  dirs :: "string list"
  calls :: "call list"

definition record_call :: "call \<Rightarrow> world \<Rightarrow> world" where
  "record_call c w = w\<lparr>calls := calls w @ [c]\<rparr>"

text \<open>
  \<open>fs.mkdir(dir, { recursive })\<close>: on a directory that exists it rejects only when
  \<open>recursive\<close> is false.
\<close>

definition fs_mkdir :: "env \<Rightarrow> string \<Rightarrow> bool \<Rightarrow> world \<Rightarrow> world \<times> (error + unit)" where
  "fs_mkdir e d recursive w =
     (let w' = record_call (Mkdir d recursive) w in
      if d \<in> set (dirs w) then (if recursive then (w', Inr ()) else (w', Inl (FsError ''EEXIST'')))
      else case mkdir_error e of
             None \<Rightarrow> (w'\<lparr>dirs := d # dirs w'\<rparr>, Inr ())
           | Some m \<Rightarrow> (w', Inl (FsError m)))"

section \<open>The module\<close>

definition getArtifactsDir :: "env \<Rightarrow> string option \<Rightarrow> string" where
  "getArtifactsDir e out = path_join e (cwd e) (case out of None \<Rightarrow> DEFAULT_OUTPUT_DIR | Some d \<Rightarrow> d)"

definition ensureDir :: "env \<Rightarrow> string \<Rightarrow> world \<Rightarrow> world \<times> (error + unit)" where
  "ensureDir e d w = fs_mkdir e d True w"

text \<open>
  \<open>runAxeScan\<close> in two parts: the builder as the calls before \<open>analyze()\<close> leave it,
  and the call of \<open>analyze()\<close> on it.
\<close>

definition configured_builder ::
  "nat \<Rightarrow> string list option \<Rightarrow> string list option \<Rightarrow> string list option \<Rightarrow> string list option \<Rightarrow>
   builder" where
  "configured_builder pg inc exc tgs dis =
     (let b0 = \<lparr>b_page = pg, b_include = [], b_exclude = [], b_disabled = [], b_tags = []\<rparr>;
          b1 = (case inc of Some sels \<Rightarrow> if sels \<noteq> [] then foldl builder_include b0 sels else b0
                | None \<Rightarrow> b0);
          b2 = (case exc of Some sels \<Rightarrow> if sels \<noteq> [] then foldl builder_exclude b1 sels else b1
                | None \<Rightarrow> b1);
          b3 = (case dis of Some rules \<Rightarrow> if rules \<noteq> [] then builder_disableRules b2 rules else b2
                | None \<Rightarrow> b2)
      in builder_withTags b3 (case tgs of Some ts \<Rightarrow> ts | None \<Rightarrow> DEFAULT_TAGS))"

definition runAxeScan ::
  "env \<Rightarrow> nat \<Rightarrow> string list option \<Rightarrow> string list option \<Rightarrow> string list option \<Rightarrow>
   string list option \<Rightarrow> world \<Rightarrow> world \<times> (error + AxeResults)" where
  "runAxeScan e pg inc exc tgs dis w =
     (let w' = record_call (Analyze (configured_builder pg inc exc tgs dis)) w
      in case analyze_outcome e of
           Inl m \<Rightarrow> (w', Inl (ScanEngineFailure m))
         | Inr results \<Rightarrow> (w', Inr results))"

definition writeJsonReport ::
  "env \<Rightarrow> string \<Rightarrow> string \<Rightarrow> AxeResults \<Rightarrow> world \<Rightarrow> world \<times> (error + string)" where
  "writeJsonReport e d baseName results w =
     (let jsonPath = path_join e d (baseName @ ''.json'');
          w' = record_call (WriteFile jsonPath results) w
      in case writeFile_error e of
           None \<Rightarrow> (w', Inr jsonPath)
         | Some m \<Rightarrow> (w', Inl (ReportWriteFailure (''Failed to write JSON report: '' @ m))))"

definition writeHtmlReport ::
  "env \<Rightarrow> string \<Rightarrow> string \<Rightarrow> string \<Rightarrow> AxeResults \<Rightarrow> (string \<times> string) list option \<Rightarrow>
   world \<Rightarrow> world \<times> (error + string)" where
  "writeHtmlReport e d baseName desc results ropts w =
     (let options = [(''projectKey'', desc), (''reportFileName'', baseName @ ''.html''),
                     (''outputDirPath'', d), (''outputDir'', ''.'')] @
                    (case ropts of None \<Rightarrow> [] | Some ro \<Rightarrow> ro);
          w' = record_call (CreateHtmlReport results options) w
      in case createHtmlReport_error e of
           None \<Rightarrow> (w', Inr (path_join e d (baseName @ ''.html'')))
         | Some m \<Rightarrow> (w', Inl (ReportWriteFailure (''Failed to generate HTML report: '' @ m))))"

text \<open>\<open>results.violations?.length ?? 0\<close>.\<close>

definition violations_length :: "AxeResults \<Rightarrow> nat" where
  "violations_length results = (case violations results of None \<Rightarrow> 0 | Some vs \<Rightarrow> length vs)"

definition summary_line :: "string \<Rightarrow> nat \<Rightarrow> counts \<Rightarrow> string" where
  "summary_line desc totalViolations cnts =
     ''[A11Y] '' @ desc @ '' -> total='' @ show_nat totalViolations @
     '' (critical='' @ show_nat (critical cnts) @ '', serious='' @ show_nat (serious cnts) @
     '', moderate='' @ show_nat (moderate cnts) @ '', minor='' @ show_nat (minor cnts) @ '')''"

text \<open>
  The block \<open>if (totalViolations > 0) { ... }\<close> of \<open>runA11yTestAndGenerateReports\<close>: it
  leaves \<open>htmlPath\<close> and \<open>jsonPath\<close>, \<open>None\<close> for \<open>null\<close>. A rejected \<open>await\<close> ends
  the run, as nothing catches it.
\<close>

definition write_reports ::
  "env \<Rightarrow> RunA11yOptions \<Rightarrow> string \<Rightarrow> string \<Rightarrow> AxeResults \<Rightarrow> nat \<Rightarrow> world \<Rightarrow>
   world \<times> (error + string option \<times> string option)" where
  "write_reports e opts desc d results totalViolations w =
     (if totalViolations > 0 then
        let base = reportBaseName (now e) desc in
        case (if generateHtmlReport opts \<noteq> Some False
              then (case writeHtmlReport e d base desc results (reporterOptions opts) w of
                      (w1, Inl err) \<Rightarrow> (w1, Inl err)
                    | (w1, Inr p) \<Rightarrow> (w1, Inr (Some p)))
              else (w, Inr None)) of
          (w1, Inl err) \<Rightarrow> (w1, Inl err)
        | (w1, Inr htmlPath) \<Rightarrow>
            if generateJsonReport opts \<noteq> Some False
            then (case writeJsonReport e d base results w1 of
                    (w2, Inl err) \<Rightarrow> (w2, Inl err)
                  | (w2, Inr p) \<Rightarrow> (w2, Inr (htmlPath, Some p)))
            else (w1, Inr (htmlPath, None))
      else (w, Inr (None, None)))"

text \<open>One item of \<open>violationSummary\<close>, for the violation at index \<open>idx\<close>.\<close>

definition summary_item :: "nat \<Rightarrow> violation \<Rightarrow> string" where
  "summary_item idx v =
     ''  '' @ show_nat (idx + 1) @ ''. ['' @ template (impact v) @ ''] '' @ id_v v @ '': '' @
     description v @ newline @ ''     Nodes affected: '' @ show_nat (length (nodes v)) @ newline @
     ''     Help: '' @ helpUrl v"

definition failure_message ::
  "string \<Rightarrow> AxeResults \<Rightarrow> string list \<Rightarrow> nat \<Rightarrow> counts \<Rightarrow> string option \<Rightarrow> string option \<Rightarrow>
   violation list \<Rightarrow> string" where
  "failure_message desc results impacts totalViolations cnts htmlPath jsonPath failingViolations =
     (let violationSummary =
            join newline (map (\<lambda>(idx, v). summary_item idx v) (enumerate 0 failingViolations))
      in join newline (filter (\<lambda>s. s \<noteq> [])
           [''Accessibility test failed.'',
            ''Page: '' @ desc,
            (if truthy (url results) then ''URL: '' @ template (url results) else []),
            ''Fail impacts: '' @ join '', '' impacts,
            ''Totals: total='' @ show_nat totalViolations @
              '', critical='' @ show_nat (critical cnts) @ '', serious='' @ show_nat (serious cnts) @
              '', moderate='' @ show_nat (moderate cnts) @ '', minor='' @ show_nat (minor cnts),
            (case htmlPath of Some p \<Rightarrow> if p \<noteq> [] then ''HTML report: '' @ p else [] | None \<Rightarrow> []),
            (case jsonPath of Some p \<Rightarrow> if p \<noteq> [] then ''JSON report: '' @ p else [] | None \<Rightarrow> []),
            newline @ ''Failing violations ('' @ show_nat (length failingViolations) @ ''):'' @
              newline @ violationSummary]))"

text \<open>
  The end of \<open>runA11yTestAndGenerateReports\<close>, from the comment \<open>// Fail logic\<close> on:
  the default and the validation of \<open>failImpacts\<close>, then the decision.
\<close>

text \<open>\<open>opts.failImpacts ?? DEFAULT_FAIL_IMPACTS\<close>.\<close>

definition configured_impacts :: "RunA11yOptions \<Rightarrow> impacts_arg" where
  "configured_impacts opts = (case failImpacts opts of None \<Rightarrow> Array DEFAULT_FAIL_IMPACTS | Some a \<Rightarrow> a)"

definition fail_logic ::
  "RunA11yOptions \<Rightarrow> string \<Rightarrow> AxeResults \<Rightarrow> nat \<Rightarrow> counts \<Rightarrow> string option \<Rightarrow> string option \<Rightarrow>
   error + AxeResults" where
  "fail_logic opts desc results totalViolations cnts htmlPath jsonPath =
     (case validateFailImpacts (configured_impacts opts) of
        Inl err \<Rightarrow> Inl err
      | Inr impacts \<Rightarrow>
          if failOnViolations opts = Some True then
            let failingViolations = filterViolationsByImpact results impacts in
            if length failingViolations > 0
            then Inl (AccessibilityViolationsFound failingViolations
                   (failure_message desc results impacts totalViolations cnts htmlPath jsonPath
                      failingViolations))
            else Inr results
          else Inr results)"

definition runA11yTestAndGenerateReports ::
  "env \<Rightarrow> RunA11yOptions \<Rightarrow> world \<Rightarrow> world \<times> (error + AxeResults)" where
  "runA11yTestAndGenerateReports e opts w =
     (case validatePageDescription (pageDescription opts) of
        Inl err \<Rightarrow> (w, Inl err)
      | Inr desc \<Rightarrow>
          let d = getArtifactsDir e (outputDir opts) in
          case ensureDir e d w of
            (w1, Inl err) \<Rightarrow> (w1, Inl err)
          | (w1, Inr u) \<Rightarrow>
              case runAxeScan e (page opts) (include_sel opts) (exclude_sel opts) (tags opts)
                     (disableRules opts) w1 of
                (w2, Inl err) \<Rightarrow> (w2, Inl err)
              | (w2, Inr results) \<Rightarrow>
                  let totalViolations = violations_length results;
                      cnts = countByImpact results;
                      w3 = (if logSummary opts \<noteq> Some False
                            then record_call (ConsoleLog (summary_line desc totalViolations cnts)) w2
                            else w2)
                  in case write_reports e opts desc d results totalViolations w3 of
                       (w4, Inl err) \<Rightarrow> (w4, Inl err)
                     | (w4, Inr (htmlPath, jsonPath)) \<Rightarrow>
                         (w4, fail_logic opts desc results totalViolations cnts htmlPath jsonPath))"

text \<open>
  \<open>expectNoViolations\<close>: the lines it logs and the count it returns. The lines are kept
  by their parts: the heading with the count, then per violation its number, id and
  description, its impact, and its number of nodes; or the line that nothing was found.
\<close>

datatype log_line =
  FoundLine nat
| ViolationLine nat string string
| ImpactLine jsval
| NodesLine nat
| NoneFoundLine

definition expectNoViolations :: "AxeResults \<Rightarrow> log_line list \<times> nat" where
  "expectNoViolations results =
     (let n = violations_length results in
      if n > 0
      then (FoundLine n #
              concat (map (\<lambda>(index, v).
                             [ViolationLine (index + 1) (id_v v) (description v),
                              ImpactLine (impact v),
                              NodesLine (length (nodes v))])
                          (enumerate 0 (violations_or_empty results))), n)
      else ([NoneFoundLine], n))"

section \<open>Notions used in the statements\<close>

text \<open>The calls that write a report file.\<close>

fun is_report_call :: "call \<Rightarrow> bool" where
  "is_report_call (CreateHtmlReport results options) = True"
| "is_report_call (WriteFile p results) = True"
| "is_report_call c = False"

text \<open>
  A run gets as far as the fail logic when \<open>pageDescription\<close> is a non-empty string,
  the output directory exists or can be created, the scan resolves to \<open>results\<close>, and
  no report that the run writes fails.
\<close>

definition reaches_fail_logic :: "env \<Rightarrow> RunA11yOptions \<Rightarrow> world \<Rightarrow> AxeResults \<Rightarrow> bool" where
  "reaches_fail_logic e opts w results =
     (truthy (pageDescription opts) \<and>
      (getArtifactsDir e (outputDir opts) \<in> set (dirs w) \<or> mkdir_error e = None) \<and>
      analyze_outcome e = Inr results \<and>
      (violations_length results = 0 \<or>
       (generateHtmlReport opts = Some False \<or> createHtmlReport_error e = None) \<and>
       (generateJsonReport opts = Some False \<or> writeFile_error e = None)))"

text \<open>
  The report calls that are due in a run whose scan returned \<open>results\<close>: none without
  violations; otherwise the HTML report unless \<open>generateHtmlReport\<close> is false, then
  the JSON report unless \<open>generateJsonReport\<close> is false.
\<close>

definition due_report_calls :: "env \<Rightarrow> RunA11yOptions \<Rightarrow> AxeResults \<Rightarrow> call list" where
  "due_report_calls e opts results =
     (let desc = template (pageDescription opts);
          d = getArtifactsDir e (outputDir opts);
          base = reportBaseName (now e) desc
      in if 0 < violations_length results
         then (if generateHtmlReport opts \<noteq> Some False
               then [CreateHtmlReport results
                       ([(''projectKey'', desc), (''reportFileName'', base @ ''.html''),
                         (''outputDirPath'', d), (''outputDir'', ''.'')] @
                        (case reporterOptions opts of None \<Rightarrow> [] | Some ro \<Rightarrow> ro))]
               else []) @
              (if generateJsonReport opts \<noteq> Some False
               then [WriteFile (path_join e d (base @ ''.json'')) results]
               else [])
         else [])"

text \<open>The order of JavaScript strings, \<open>a < b\<close>: by code units, a proper prefix first.\<close>

fun str_less :: "string \<Rightarrow> string \<Rightarrow> bool" where
  "str_less [] [] = False"
| "str_less [] (y # ys) = True"
| "str_less (x # xs) [] = False"
| "str_less (x # xs) (y # ys) = ((of_char x :: nat) < of_char y \<or> (x = y \<and> str_less xs ys))"

text \<open>A reading of the clock whose year has four digits, and the order of two readings.\<close>

definition four_digit_year :: "date \<Rightarrow> bool" where
  "four_digit_year t =
     (0 \<le> year t \<and> year t \<le> 9999 \<and> 1 \<le> month t \<and> month t \<le> 12 \<and> 1 \<le> day t \<and> day t \<le> 31 \<and>
      hours t < 24 \<and> minutes t < 60 \<and> seconds t < 60 \<and> milliseconds t < 1000)"

definition earlier :: "date \<Rightarrow> date \<Rightarrow> bool" where
  "earlier s t =
     (year s < year t \<or> year s = year t \<and>
     (month s < month t \<or> month s = month t \<and>
     (day s < day t \<or> day s = day t \<and>
     (hours s < hours t \<or> hours s = hours t \<and>
     (minutes s < minutes t \<or> minutes s = minutes t \<and>
     (seconds s < seconds t \<or> seconds s = seconds t \<and>
      milliseconds s < milliseconds t))))))"

section \<open>Example inputs\<close>

definition example_violation :: "jsval \<Rightarrow> violation" where
  "example_violation i =
     \<lparr>id_v = ''image-alt'', description = ''Images must have alternate text'', impact = i,
      helpUrl = ''https://example.org/image-alt'', nodes = [''img'']\<rparr>"

definition example_results :: AxeResults where
  "example_results =
     \<lparr>violations = Some [example_violation (Str ''critical''), example_violation (Str ''critical''),
                         example_violation (Str ''unknown''), example_violation (Str ''serious'')],
      url = Str ''https://example.org/''\<rparr>"

definition example_env :: env where
  "example_env =
     \<lparr>cwd = ''/repo'', path_join = (\<lambda>a b. a @ ''/'' @ b), mkdir_error = None,
      analyze_outcome = Inr example_results, createHtmlReport_error = None, writeFile_error = None,
      now = \<lparr>year = 2024, month = 3, day = 9, hours = 7, minutes = 5, seconds = 1,
             milliseconds = 42\<rparr>\<rparr>"

definition example_options :: RunA11yOptions where
  "example_options =
     \<lparr>page = 0, pageDescription = Str ''My Page! 2024'', include_sel = None, exclude_sel = None,
      tags = None, disableRules = None, failOnViolations = Some True,
      failImpacts = Some (Array [''critical'']), outputDir = None, reporterOptions = None,
      generateHtmlReport = None, generateJsonReport = None, logSummary = None\<rparr>"

definition empty_world :: world where
  "empty_world = \<lparr>dirs = [], calls = []\<rparr>"

section \<open>Lemmas about the helpers\<close>

subsection \<open>Counting violations\<close>

lemma count_loop_critical:
  "critical (count_loop c vs) = critical c + count_list (map impact vs) (Str ''critical'')"
  by (induction vs arbitrary: c) (auto simp: count_step_def increment_def split: jsval.splits)

lemma count_loop_serious:
  "serious (count_loop c vs) = serious c + count_list (map impact vs) (Str ''serious'')"
  by (induction vs arbitrary: c) (auto simp: count_step_def increment_def split: jsval.splits)

lemma count_loop_moderate:
  "moderate (count_loop c vs) = moderate c + count_list (map impact vs) (Str ''moderate'')"
  by (induction vs arbitrary: c) (auto simp: count_step_def increment_def split: jsval.splits)

lemma count_loop_minor:
  "minor (count_loop c vs) = minor c + count_list (map impact vs) (Str ''minor'')"
  by (induction vs arbitrary: c) (auto simp: count_step_def increment_def split: jsval.splits)

lemma countByImpact_eq:
  "countByImpact results =
     \<lparr>critical = count_list (map impact (violations_or_empty results)) (Str ''critical''),
      serious = count_list (map impact (violations_or_empty results)) (Str ''serious''),
      moderate = count_list (map impact (violations_or_empty results)) (Str ''moderate''),
      minor = count_list (map impact (violations_or_empty results)) (Str ''minor'')\<rparr>"
  by (simp add: countByImpact_def count_loop_critical count_loop_serious count_loop_moderate
      count_loop_minor)

lemma length_filter_single:
  "k \<noteq> [] \<Longrightarrow> length (filter (\<lambda>v. truthy (impact v) \<and> has_impact [k] (impact v)) vs) =
     count_list (map impact vs) (Str k)"
  by (induction vs) (auto split: jsval.splits elim: has_impact.elims truthy.elims)

lemma filter_single:
  "k \<noteq> [] \<Longrightarrow> length (filterViolationsByImpact results [k]) =
     count_list (map impact (violations_or_empty results)) (Str k)"
  by (simp add: filterViolationsByImpact_def length_filter_single)

lemma critical_subset_of_counts:
  "critical (countByImpact results) = length (filterViolationsByImpact results [''critical''])"
  by (simp add: countByImpact_eq filter_single)

lemma filterViolationsByImpact_empty: "filterViolationsByImpact results [] = []"
  by (simp add: filterViolationsByImpact_def)

lemma count_list_known_unknown:
  "count_list xs (Str ''critical'') + count_list xs (Str ''serious'') +
   count_list xs (Str ''moderate'') + count_list xs (Str ''minor'') +
   length (filter (\<lambda>x. x \<notin> Str ` set validImpacts) xs) = length xs"
  by (induction xs) (auto simp: validImpacts_def)

lemma count_step_unknown:
  "impact v \<notin> Str ` set validImpacts \<Longrightarrow> count_step c v = c"
  by (auto simp: count_step_def increment_def validImpacts_def split: jsval.splits)

lemma counts_sum:
  "critical (countByImpact results) + serious (countByImpact results) +
   moderate (countByImpact results) + minor (countByImpact results) +
   length (filter (\<lambda>v. impact v \<notin> Str ` set validImpacts) (violations_or_empty results)) =
   length (violations_or_empty results)"
  using count_list_known_unknown [of "map impact (violations_or_empty results)"]
  by (simp add: countByImpact_eq filter_map comp_def)

lemma violations_length_eq: "violations_length results = length (violations_or_empty results)"
  by (simp add: violations_length_def violations_or_empty_def split: option.splits)

lemma expectNoViolations_count:
  "snd (expectNoViolations results) = length (violations_or_empty results)"
  by (simp add: expectNoViolations_def violations_length_def violations_or_empty_def Let_def
      split: option.splits)

subsection \<open>The order of strings and the time stamp\<close>

lemma str_less_irrefl: "\<not> str_less xs xs"
  by (induction xs) auto

lemma str_less_same_length_neq:
  "str_less xs ys \<Longrightarrow> xs \<noteq> ys"
  using str_less_irrefl by auto

lemma str_less_same_prefix: "str_less (p @ xs) (p @ ys) = str_less xs ys"
  by (induction p) auto

lemma str_less_same_length_suffix:
  "length xs = length ys \<Longrightarrow> str_less xs ys \<Longrightarrow> str_less (xs @ u) (ys @ v)"
  by (induction xs ys rule: list_induct2) auto

lemma length_pad_digits: "length (pad_digits w n) = w"
  by (induction w arbitrary: n) auto

lemma of_char_digit: "d < 10 \<Longrightarrow> (of_char (digit_char d) :: nat) = 48 + d"
  by (simp add: digit_char_def)

lemma str_less_pad_digits:
  "a < b \<Longrightarrow> b < 10 ^ w \<Longrightarrow> str_less (pad_digits w a @ xs) (pad_digits w b @ ys)"
proof (induction w arbitrary: a b xs ys)
  case 0
  then show ?case by simp
next
  case (Suc w)
  have le: "a div 10 \<le> b div 10" using Suc.prems(1) by (simp add: div_le_mono)
  have bound: "b div 10 < 10 ^ w" using Suc.prems(2) by (simp add: less_mult_imp_div_less mult.commute)
  show ?case
  proof (cases "a div 10 < b div 10")
    case True
    from Suc.IH [OF True bound] show ?thesis by simp
  next
    case False
    with le have eq: "a div 10 = b div 10" by simp
    have "a mod 10 < b mod 10"
      using Suc.prems(1) eq by (metis div_mult_mod_eq nat_add_left_cancel_less)
    then show ?thesis
      by (simp add: eq str_less_same_prefix of_char_digit)
  qed
qed

lemma digit_char_not_sep: "d < 10 \<Longrightarrow> digit_char d \<noteq> CHR '':'' \<and> digit_char d \<noteq> CHR ''.''"
proof -
  assume d: "d < 10"
  have "(of_char (digit_char d) :: nat) \<noteq> of_char CHR '':''"
    using d by (simp add: of_char_digit)
  moreover have "(of_char (digit_char d) :: nat) \<noteq> of_char CHR ''.''"
    using d by (simp add: of_char_digit)
  ultimately show ?thesis by auto
qed

lemma replace_colon_dot_pad_digits: "replace_colon_dot (pad_digits w n) = pad_digits w n"
  by (induction w arbitrary: n) (simp_all add: replace_colon_dot_def digit_char_not_sep)

lemma replace_colon_dot_append:
  "replace_colon_dot (xs @ ys) = replace_colon_dot xs @ replace_colon_dot ys"
  by (simp add: replace_colon_dot_def)

lemma timestamp_four_digit_year:
  "0 \<le> year t \<Longrightarrow> year t \<le> 9999 \<Longrightarrow>
   replace_colon_dot (toISOString t) =
     pad_digits 4 (nat (year t)) @ ''-'' @ pad_digits 2 (month t) @ ''-'' @ pad_digits 2 (day t) @
     ''T'' @ pad_digits 2 (hours t) @ ''-'' @ pad_digits 2 (minutes t) @ ''-'' @
     pad_digits 2 (seconds t) @ ''-'' @ pad_digits 3 (milliseconds t) @ ''Z''"
  unfolding toISOString_def year_string_def
  by (simp only: replace_colon_dot_append replace_colon_dot_pad_digits if_True simp_thms)
     (simp add: replace_colon_dot_def)

lemma timestamp_earlier:
  assumes "four_digit_year s" "four_digit_year t" "earlier s t"
  shows "str_less (replace_colon_dot (toISOString s)) (replace_colon_dot (toISOString t))"
proof -
  have y: "nat (year s) < nat (year t) \<or> year s = year t"
    if "year s < year t \<or> year s = year t" using that assms(1) by (auto simp: four_digit_year_def)
  have b: "nat (year t) < 10 ^ 4" "month t < 10 ^ 2" "day t < 10 ^ 2" "hours t < 10 ^ 2"
    "minutes t < 10 ^ 2" "seconds t < 10 ^ 2" "milliseconds t < 10 ^ 3"
    using assms(2) by (auto simp: four_digit_year_def)
  have ys: "0 \<le> year s" "year s \<le> 9999" "0 \<le> year t" "year t \<le> 9999"
    using assms(1,2) by (auto simp: four_digit_year_def)
  consider (Y) "year s < year t"
    | (Mo) "year s = year t" "month s < month t"
    | (D) "year s = year t" "month s = month t" "day s < day t"
    | (H) "year s = year t" "month s = month t" "day s = day t" "hours s < hours t"
    | (Mi) "year s = year t" "month s = month t" "day s = day t" "hours s = hours t"
        "minutes s < minutes t"
    | (S) "year s = year t" "month s = month t" "day s = day t" "hours s = hours t"
        "minutes s = minutes t" "seconds s < seconds t"
    | (Ms) "year s = year t" "month s = month t" "day s = day t" "hours s = hours t"
        "minutes s = minutes t" "seconds s = seconds t" "milliseconds s < milliseconds t"
    using assms(3) unfolding earlier_def by blast
  then show ?thesis
  proof cases
    case Y
    then have "nat (year s) < nat (year t)" using ys by simp
    then show ?thesis
      unfolding timestamp_four_digit_year [OF ys(1,2)] timestamp_four_digit_year [OF ys(3,4)]
      using b(1) by (intro str_less_pad_digits)
  next
    case Mo
    then show ?thesis
      unfolding timestamp_four_digit_year [OF ys(1,2)] timestamp_four_digit_year [OF ys(3,4)]
      using b(2) by (simp add: str_less_same_prefix str_less_pad_digits)
  next
    case D
    then show ?thesis
      unfolding timestamp_four_digit_year [OF ys(1,2)] timestamp_four_digit_year [OF ys(3,4)]
      using b(3) by (simp add: str_less_same_prefix str_less_pad_digits)
  next
    case H
    then show ?thesis
      unfolding timestamp_four_digit_year [OF ys(1,2)] timestamp_four_digit_year [OF ys(3,4)]
      using b(4) by (simp add: str_less_same_prefix str_less_pad_digits)
  next
    case Mi
    then show ?thesis
      unfolding timestamp_four_digit_year [OF ys(1,2)] timestamp_four_digit_year [OF ys(3,4)]
      using b(5) by (simp add: str_less_same_prefix str_less_pad_digits)
  next
    case S
    then show ?thesis
      unfolding timestamp_four_digit_year [OF ys(1,2)] timestamp_four_digit_year [OF ys(3,4)]
      using b(6) by (simp add: str_less_same_prefix str_less_pad_digits)
  next
    case Ms
    then show ?thesis
      unfolding timestamp_four_digit_year [OF ys(1,2)] timestamp_four_digit_year [OF ys(3,4)]
      using b(7) by (simp add: str_less_same_prefix str_less_pad_digits)
  qed
qed

lemma length_timestamp:
  "0 \<le> year t \<Longrightarrow> year t \<le> 9999 \<Longrightarrow> length (replace_colon_dot (toISOString t)) = 24"
  by (simp add: timestamp_four_digit_year length_pad_digits)

lemma name_char_lower: "is_name_char c \<Longrightarrow> toLowerCase_char c = c"
  by (auto simp: is_name_char_def toLowerCase_char_def Let_def)

lemma name_char_not_space: "is_name_char c \<Longrightarrow> \<not> is_space c"
  by (auto simp: is_name_char_def is_space_def Let_def)

lemma normalize_name_chars:
  "list_all is_name_char s \<Longrightarrow> strip_unsafe (replace_spaces (toLowerCase s)) = s"
  by (induction s) (simp_all add: strip_unsafe_def toLowerCase_def name_char_lower name_char_not_space)

lemma strip_unsafe_all: "list_all is_name_char (strip_unsafe s)"
  by (simp add: strip_unsafe_def list_all_iff)

subsection \<open>Normalising the description\<close>

lemma lower_letters:
  "list_all (\<lambda>n. char_of n \<in> set ''abcdefghijklmnopqrstuvwxyz'') [97..<Suc 122]"
  by code_simp

lemma digits_chars:
  "list_all (\<lambda>n. char_of n \<in> set ''0123456789'') [48..<Suc 57]"
  by code_simp

lemma capital_letters:
  "list_all (\<lambda>n. char_of n \<in> set ''ABCDEFGHIJKLMNOPQRSTUVWXYZ'') [65..<Suc 90]"
  by code_simp

lemma in_upt_Suc: "a \<le> n \<Longrightarrow> n \<le> b \<Longrightarrow> n \<in> set [a..<Suc b]"
  by auto

lemma char_of_code: "char_of (of_char c :: nat) = c"
  by simp

lemma is_name_char_iff:
  "is_name_char c \<longleftrightarrow> c \<in> set ''abcdefghijklmnopqrstuvwxyz0123456789_-''"
proof
  assume a: "is_name_char c"
  let ?n = "of_char c :: nat"
  from a consider "97 \<le> ?n \<and> ?n \<le> 122" | "48 \<le> ?n \<and> ?n \<le> 57" | "c = CHR ''_''" | "c = CHR ''-''"
    by (auto simp: is_name_char_def Let_def)
  then show "c \<in> set ''abcdefghijklmnopqrstuvwxyz0123456789_-''"
  proof cases
    case 1
    then have "?n \<in> set [97..<Suc 122]" by (intro in_upt_Suc) simp_all
    with lower_letters have "char_of ?n \<in> set ''abcdefghijklmnopqrstuvwxyz''"
      unfolding list_all_iff by blast
    then show ?thesis by (simp only: char_of_code) auto
  next
    case 2
    then have "?n \<in> set [48..<Suc 57]" by (intro in_upt_Suc) simp_all
    with digits_chars have "char_of ?n \<in> set ''0123456789''"
      unfolding list_all_iff by blast
    then show ?thesis by (simp only: char_of_code) auto
  qed auto
next
  assume "c \<in> set ''abcdefghijklmnopqrstuvwxyz0123456789_-''"
  then show "is_name_char c"
    by (auto simp: is_name_char_def)
qed

lemma capital_iff:
  "c \<in> set ''ABCDEFGHIJKLMNOPQRSTUVWXYZ'' \<longleftrightarrow> 65 \<le> (of_char c :: nat) \<and> (of_char c :: nat) \<le> 90"
proof
  assume "c \<in> set ''ABCDEFGHIJKLMNOPQRSTUVWXYZ''"
  then show "65 \<le> (of_char c :: nat) \<and> (of_char c :: nat) \<le> 90" by auto
next
  let ?n = "of_char c :: nat"
  assume "65 \<le> ?n \<and> ?n \<le> 90"
  then have "?n \<in> set [65..<Suc 90]" by (intro in_upt_Suc) simp_all
  with capital_letters have "char_of ?n \<in> set ''ABCDEFGHIJKLMNOPQRSTUVWXYZ''"
    unfolding list_all_iff by blast
  then show "c \<in> set ''ABCDEFGHIJKLMNOPQRSTUVWXYZ''" by (simp only: char_of_code)
qed

lemma toLowerCase_alphabet:
  "toLowerCase ''ABCDEFGHIJKLMNOPQRSTUVWXYZ'' = ''abcdefghijklmnopqrstuvwxyz''"
  by code_simp

lemma toLowerCase_append: "toLowerCase (xs @ ys) = toLowerCase xs @ toLowerCase ys"
  by (simp add: toLowerCase_def)

lemma toLowerCase_ascii_other:
  "c \<notin> set ''ABCDEFGHIJKLMNOPQRSTUVWXYZ'' \<Longrightarrow> (of_char c :: nat) < 128 \<Longrightarrow> toLowerCase [c] = [c]"
  by (simp only: capital_iff) (auto simp: toLowerCase_def toLowerCase_char_def Let_def)

lemma toLowerCase_char_space: "is_space (toLowerCase_char c) = is_space c"
  by (auto simp: toLowerCase_char_def is_space_def Let_def)

lemma name_char_ascii: "is_name_char c \<Longrightarrow> (of_char c :: nat) < 128"
  by (auto simp: is_name_char_def Let_def)

lemma toLowerCase_char_stays_high:
  "128 \<le> (of_char c :: nat) \<Longrightarrow> 128 \<le> (of_char (toLowerCase_char c) :: nat)"
  by (auto simp: toLowerCase_char_def Let_def)

lemma toLowerCase_char_high:
  "128 \<le> (of_char c :: nat) \<Longrightarrow> \<not> is_name_char (toLowerCase_char c)"
  using name_char_ascii [of "toLowerCase_char c"] toLowerCase_char_stays_high [of c] by auto

lemma replace_spaces_no_space:
  "list_all (\<lambda>c. \<not> is_space c) s \<Longrightarrow> replace_spaces s = s"
  by (induction s) auto

lemma replace_spaces_run_head:
  "ws \<noteq> [] \<Longrightarrow> list_all is_space ws \<Longrightarrow> ys = [] \<or> \<not> is_space (hd ys) \<Longrightarrow>
   replace_spaces (ws @ ys) = CHR ''-'' # replace_spaces ys"
proof -
  assume a: "ws \<noteq> []" "list_all is_space ws" "ys = [] \<or> \<not> is_space (hd ys)"
  then obtain c cs where ws: "ws = c # cs" by (cases ws) auto
  with a have "is_space c" "list_all is_space cs" by auto
  moreover have "dropWhile is_space (cs @ ys) = ys"
    using \<open>list_all is_space cs\<close> a(3)
    by (cases ys) (auto simp: dropWhile_append list_all_iff)
  ultimately show ?thesis by (simp add: ws)
qed

lemma replace_spaces_append:
  "xs = [] \<or> \<not> is_space (last xs) \<Longrightarrow> replace_spaces (xs @ r) = replace_spaces xs @ replace_spaces r"
proof (induction xs rule: replace_spaces.induct)
  case 1
  then show ?case by simp
next
  case (2 c cs)
  show ?case
  proof (cases "is_space c")
    case True
    with "2.prems" have ne: "cs \<noteq> []" and l: "\<not> is_space (last cs)"
      by (auto split: if_splits)
    then have ex: "\<exists>x \<in> set cs. \<not> is_space x" using last_in_set by blast
    then obtain x where "x \<in> set cs" "\<not> is_space x" by blast
    then have d: "dropWhile is_space (cs @ r) = dropWhile is_space cs @ r"
      by (rule dropWhile_append1)
    from ex have dne: "dropWhile is_space cs \<noteq> []" by (simp add: dropWhile_eq_Nil_conv)
    have "last (dropWhile is_space cs) = last cs"
      using ne dne by (metis append_Nil2 last_appendR takeWhile_dropWhile_id)
    with l dne "2.IH"(1) [OF True] have
      "replace_spaces (dropWhile is_space cs @ r) =
         replace_spaces (dropWhile is_space cs) @ replace_spaces r"
      by simp
    with True d show ?thesis by simp
  next
    case False
    show ?thesis
    proof (cases "cs = []")
      case True
      with False show ?thesis by simp
    next
      case ne: False
      with "2.prems" have "\<not> is_space (last cs)" by simp
      with "2.IH"(2) [OF False] False show ?thesis by simp
    qed
  qed
qed

lemma replace_spaces_run:
  assumes "ws \<noteq> []" "list_all is_space ws" "xs = [] \<or> \<not> is_space (last xs)"
    "ys = [] \<or> \<not> is_space (hd ys)"
  shows "replace_spaces (xs @ ws @ ys) = replace_spaces xs @ ''-'' @ replace_spaces ys"
  by (simp add: replace_spaces_append [OF assms(3)] replace_spaces_run_head [OF assms(1,2,4)])

lemma strip_unsafe_append: "strip_unsafe (xs @ ys) = strip_unsafe xs @ strip_unsafe ys"
  by (simp add: strip_unsafe_def)

lemma toLowerCase_spaces: "list_all is_space (toLowerCase ws) = list_all is_space ws"
  by (simp add: toLowerCase_def list_all_iff toLowerCase_char_space)

lemma toLowerCase_last:
  "xs = [] \<or> \<not> is_space (last xs) \<Longrightarrow> toLowerCase xs = [] \<or> \<not> is_space (last (toLowerCase xs))"
  by (auto simp: toLowerCase_def last_map toLowerCase_char_space)

lemma toLowerCase_hd:
  "ys = [] \<or> \<not> is_space (hd ys) \<Longrightarrow> toLowerCase ys = [] \<or> \<not> is_space (hd (toLowerCase ys))"
  by (auto simp: toLowerCase_def hd_map toLowerCase_char_space)

lemma normalized_run:
  assumes "ws \<noteq> []" "list_all is_space ws" "xs = [] \<or> \<not> is_space (last xs)"
    "ys = [] \<or> \<not> is_space (hd ys)"
  shows "strip_unsafe (replace_spaces (toLowerCase (xs @ ws @ ys))) =
         strip_unsafe (replace_spaces (toLowerCase xs)) @ ''-'' @
         strip_unsafe (replace_spaces (toLowerCase ys))"
proof -
  have "toLowerCase ws \<noteq> []" using assms(1) by (simp add: toLowerCase_def)
  moreover have "list_all is_space (toLowerCase ws)" using assms(2) by (simp add: toLowerCase_spaces)
  ultimately have "replace_spaces (toLowerCase xs @ toLowerCase ws @ toLowerCase ys) =
      replace_spaces (toLowerCase xs) @ ''-'' @ replace_spaces (toLowerCase ys)"
    using toLowerCase_last [OF assms(3)] toLowerCase_hd [OF assms(4)]
    by (intro replace_spaces_run)
  then show ?thesis
    by (simp add: toLowerCase_append strip_unsafe_append) (simp add: strip_unsafe_def is_name_char_def)
qed

lemma toLowerCase_no_space:
  "list_all (\<lambda>c. \<not> is_space c) s \<Longrightarrow> list_all (\<lambda>c. \<not> is_space c) (toLowerCase s)"
  by (simp add: toLowerCase_def list_all_iff toLowerCase_char_space)

lemma normalized_word:
  "list_all (\<lambda>c. \<not> is_space c) s \<Longrightarrow>
   strip_unsafe (replace_spaces (toLowerCase s)) = strip_unsafe (toLowerCase s)"
  by (simp add: replace_spaces_no_space toLowerCase_no_space)

lemma toLowerCase_high: "128 \<le> (of_char c :: nat) \<Longrightarrow> strip_unsafe (toLowerCase [c]) = []"
  by (simp add: strip_unsafe_def toLowerCase_def toLowerCase_char_high)

subsection \<open>The fail logic\<close>

lemma validateFailImpacts_valid:
  "set impacts \<subseteq> set validImpacts \<Longrightarrow> validateFailImpacts (Array impacts) = Inr impacts"
  by (auto simp: Let_def filter_empty_conv)

lemma validateFailImpacts_invalid:
  "\<not> set impacts \<subseteq> set validImpacts \<Longrightarrow>
   validateFailImpacts (Array impacts) =
     Inl (InvalidConfiguration
       (''Invalid impact levels: '' @ join '', '' (filter (\<lambda>i. i \<notin> set validImpacts) impacts) @
        ''. Valid values are: '' @ join '', '' validImpacts))"
  by (auto simp: Let_def filter_empty_conv)

lemma fail_logic_valid:
  "configured_impacts opts = Array impacts \<Longrightarrow> set impacts \<subseteq> set validImpacts \<Longrightarrow>
   fail_logic opts desc results n cnts hp jp =
     (if failOnViolations opts = Some True \<and> filterViolationsByImpact results impacts \<noteq> []
      then Inl (AccessibilityViolationsFound (filterViolationsByImpact results impacts)
             (failure_message desc results impacts n cnts hp jp
                (filterViolationsByImpact results impacts)))
      else Inr results)"
  by (simp add: fail_logic_def validateFailImpacts_valid Let_def del: validateFailImpacts.simps)

lemma fail_logic_invalid:
  "configured_impacts opts = Array impacts \<Longrightarrow> \<not> set impacts \<subseteq> set validImpacts \<Longrightarrow>
   fail_logic opts desc results n cnts hp jp =
     Inl (InvalidConfiguration
       (''Invalid impact levels: '' @ join '', '' (filter (\<lambda>i. i \<notin> set validImpacts) impacts) @
        ''. Valid values are: '' @ join '', '' validImpacts))"
  by (simp add: fail_logic_def validateFailImpacts_invalid del: validateFailImpacts.simps)

lemma fail_logic_not_array:
  "configured_impacts opts = NotArray \<Longrightarrow>
   fail_logic opts desc results n cnts hp jp = Inl (InvalidConfiguration ''failImpacts must be an array'')"
  by (simp add: fail_logic_def)

lemma fail_logic_cases:
  obtains (NotArray) "configured_impacts opts = NotArray"
  | (Invalid) impacts where "configured_impacts opts = Array impacts" "\<not> set impacts \<subseteq> set validImpacts"
  | (Valid) impacts where "configured_impacts opts = Array impacts" "set impacts \<subseteq> set validImpacts"
  by (cases "configured_impacts opts") auto

lemma fail_logic_raises_violations:
  assumes "fail_logic opts desc results n cnts hp jp = Inl (AccessibilityViolationsFound fs m)"
  shows "failOnViolations opts = Some True \<and> fs \<noteq> [] \<and>
         (\<exists>impacts. configured_impacts opts = Array impacts \<and> set impacts \<subseteq> set validImpacts \<and>
            fs = filterViolationsByImpact results impacts)"
proof (cases opts rule: fail_logic_cases)
  case NotArray
  with assms show ?thesis by (simp add: fail_logic_not_array)
next
  case (Invalid impacts)
  with assms show ?thesis by (simp add: fail_logic_invalid)
next
  case (Valid impacts)
  with assms show ?thesis by (auto simp: fail_logic_valid split: if_splits)
qed

subsection \<open>Writing the reports\<close>

lemma write_reports_outcome:
  "(\<exists>ps. snd (write_reports e opts desc d results n w) = Inr ps) \<or>
   (\<exists>m. snd (write_reports e opts desc d results n w) = Inl (ReportWriteFailure m))"
  by (auto simp: write_reports_def writeHtmlReport_def writeJsonReport_def record_call_def Let_def
      split: option.splits)

lemma write_reports_ok:
  "n = 0 \<or> (generateHtmlReport opts = Some False \<or> createHtmlReport_error e = None) \<and>
            (generateJsonReport opts = Some False \<or> writeFile_error e = None) \<Longrightarrow>
   \<exists>ps. snd (write_reports e opts desc d results n w) = Inr ps"
  by (auto simp: write_reports_def writeHtmlReport_def writeJsonReport_def record_call_def Let_def
      split: option.splits)

lemma write_reports_fails:
  "0 < n \<Longrightarrow>
   \<not> ((generateHtmlReport opts = Some False \<or> createHtmlReport_error e = None) \<and>
      (generateJsonReport opts = Some False \<or> writeFile_error e = None)) \<Longrightarrow>
   \<exists>m. snd (write_reports e opts desc d results n w) = Inl (ReportWriteFailure m)"
  by (auto simp: write_reports_def writeHtmlReport_def writeJsonReport_def record_call_def Let_def
      split: option.splits)

lemma write_reports_json_fails:
  "0 < n \<Longrightarrow> generateHtmlReport opts = Some False \<or> createHtmlReport_error e = None \<Longrightarrow>
   generateJsonReport opts \<noteq> Some False \<Longrightarrow> writeFile_error e = Some m \<Longrightarrow>
   snd (write_reports e opts desc d results n w) =
     Inl (ReportWriteFailure (''Failed to write JSON report: '' @ m))"
  by (auto simp: write_reports_def writeHtmlReport_def writeJsonReport_def Let_def)

lemma write_reports_calls_zero:
  "\<exists>cs. calls (fst (write_reports e opts desc d results n w)) = calls w @ cs \<and>
        list_all is_report_call cs \<and> (n = 0 \<longrightarrow> cs = []) \<and>
        dirs (fst (write_reports e opts desc d results n w)) = dirs w"
  by (auto simp: write_reports_def writeHtmlReport_def writeJsonReport_def record_call_def Let_def
      split: option.splits)

lemma write_reports_snd:
  "snd (write_reports e opts desc d results n w) = snd (write_reports e opts desc d results n w')"
  by (auto simp: write_reports_def writeHtmlReport_def writeJsonReport_def record_call_def Let_def
      split: option.splits)

lemma write_reports_html_called:
  "0 < n \<Longrightarrow> generateHtmlReport opts \<noteq> Some False \<Longrightarrow>
   CreateHtmlReport results
     ([(''projectKey'', desc), (''reportFileName'', reportBaseName (now e) desc @ ''.html''),
       (''outputDirPath'', d), (''outputDir'', ''.'')] @
      (case reporterOptions opts of None \<Rightarrow> [] | Some ro \<Rightarrow> ro))
     \<in> set (calls (fst (write_reports e opts desc d results n w)))"
  by (auto simp: write_reports_def writeHtmlReport_def writeJsonReport_def record_call_def Let_def
      split: option.splits)

subsection \<open>The run\<close>

lemma validatePageDescription_truthy:
  "truthy v \<Longrightarrow> validatePageDescription v = Inr (template v)"
  by (cases v) auto

lemma validatePageDescription_falsy:
  "\<not> truthy v \<Longrightarrow> validatePageDescription v =
     Inl (InvalidConfiguration ''pageDescription is required and must be a non-empty string'')"
  by (cases v) auto

lemma ensureDir_existing:
  "d \<in> set (dirs w) \<Longrightarrow> ensureDir e d w = (record_call (Mkdir d True) w, Inr ())"
  by (simp add: ensureDir_def fs_mkdir_def Let_def)

lemma run_invalid_description:
  "\<not> truthy (pageDescription opts) \<Longrightarrow>
   runA11yTestAndGenerateReports e opts w =
     (w, Inl (InvalidConfiguration ''pageDescription is required and must be a non-empty string''))"
  by (simp add: runA11yTestAndGenerateReports_def validatePageDescription_falsy)

lemma run_mkdir_fails:
  "truthy (pageDescription opts) \<Longrightarrow> getArtifactsDir e (outputDir opts) \<notin> set (dirs w) \<Longrightarrow>
   mkdir_error e = Some m \<Longrightarrow>
   runA11yTestAndGenerateReports e opts w =
     (record_call (Mkdir (getArtifactsDir e (outputDir opts)) True) w, Inl (FsError m))"
  by (simp add: runA11yTestAndGenerateReports_def validatePageDescription_truthy ensureDir_def
      fs_mkdir_def Let_def)

lemma run_scan_fails:
  "truthy (pageDescription opts) \<Longrightarrow>
   getArtifactsDir e (outputDir opts) \<in> set (dirs w) \<or> mkdir_error e = None \<Longrightarrow>
   analyze_outcome e = Inl m \<Longrightarrow>
   snd (runA11yTestAndGenerateReports e opts w) = Inl (ScanEngineFailure m) \<and>
   calls (fst (runA11yTestAndGenerateReports e opts w)) =
     calls w @ [Mkdir (getArtifactsDir e (outputDir opts)) True,
                Analyze (configured_builder (page opts) (include_sel opts) (exclude_sel opts)
                  (tags opts) (disableRules opts))]"
  by (auto simp: runA11yTestAndGenerateReports_def validatePageDescription_truthy ensureDir_def
      fs_mkdir_def runAxeScan_def record_call_def Let_def)

lemma run_scan_ok:
  assumes "truthy (pageDescription opts)"
    and "getArtifactsDir e (outputDir opts) \<in> set (dirs w) \<or> mkdir_error e = None"
    and "analyze_outcome e = Inr results"
  shows "\<exists>w3. calls w3 = calls w @ Mkdir (getArtifactsDir e (outputDir opts)) True #
             Analyze (configured_builder (page opts) (include_sel opts) (exclude_sel opts)
               (tags opts) (disableRules opts)) #
             (if logSummary opts \<noteq> Some False
              then [ConsoleLog (summary_line (template (pageDescription opts))
                      (violations_length results) (countByImpact results))]
              else []) \<and>
           getArtifactsDir e (outputDir opts) \<in> set (dirs w3) \<and>
           runA11yTestAndGenerateReports e opts w =
             (case write_reports e opts (template (pageDescription opts))
                     (getArtifactsDir e (outputDir opts)) results (violations_length results) w3 of
                (w4, Inl err) \<Rightarrow> (w4, Inl err)
              | (w4, Inr (hp, jp)) \<Rightarrow>
                  (w4, fail_logic opts (template (pageDescription opts)) results
                         (violations_length results) (countByImpact results) hp jp))"
proof -
  let ?d = "getArtifactsDir e (outputDir opts)"
  let ?w2 = "fst (runAxeScan e (page opts) (include_sel opts) (exclude_sel opts) (tags opts)
                (disableRules opts) (fst (ensureDir e ?d w)))"
  let ?w3 = "if logSummary opts \<noteq> Some False
             then record_call (ConsoleLog (summary_line (template (pageDescription opts))
                    (violations_length results) (countByImpact results))) ?w2
             else ?w2"
  show ?thesis
    using assms
    by (intro exI [of _ ?w3])
       (auto simp: runA11yTestAndGenerateReports_def validatePageDescription_truthy ensureDir_def
         fs_mkdir_def runAxeScan_def record_call_def Let_def)
qed

lemma fst_after_reports:
  "fst (case p of (w4, Inl err) \<Rightarrow> (w4, Inl err) | (w4, Inr (hp, jp)) \<Rightarrow> (w4, f hp jp)) = fst p"
  by (auto split: prod.splits sum.splits)

lemma snd_after_reports:
  "snd (case p of (w4, Inl err) \<Rightarrow> (w4, Inl err) | (w4, Inr (hp, jp)) \<Rightarrow> (w4, f hp jp)) =
     (case snd p of Inl err \<Rightarrow> Inl err | Inr (hp, jp) \<Rightarrow> f hp jp)"
  by (auto split: prod.splits sum.splits)

lemma run_scan_ok_calls:
  assumes "truthy (pageDescription opts)"
    and "getArtifactsDir e (outputDir opts) \<in> set (dirs w) \<or> mkdir_error e = None"
    and "analyze_outcome e = Inr results"
  shows "\<exists>cs. calls (fst (runA11yTestAndGenerateReports e opts w)) =
             calls w @ Mkdir (getArtifactsDir e (outputDir opts)) True #
             Analyze (configured_builder (page opts) (include_sel opts) (exclude_sel opts)
               (tags opts) (disableRules opts)) #
             (if logSummary opts \<noteq> Some False
              then [ConsoleLog (summary_line (template (pageDescription opts))
                      (violations_length results) (countByImpact results))]
              else []) @ cs \<and>
           list_all is_report_call cs \<and> (violations_length results = 0 \<longrightarrow> cs = []) \<and>
           getArtifactsDir e (outputDir opts) \<in> set (dirs (fst (runA11yTestAndGenerateReports e opts w)))"
proof -
  from run_scan_ok [OF assms] obtain w3 where
    c3: "calls w3 = calls w @ Mkdir (getArtifactsDir e (outputDir opts)) True #
             Analyze (configured_builder (page opts) (include_sel opts) (exclude_sel opts)
               (tags opts) (disableRules opts)) #
             (if logSummary opts \<noteq> Some False
              then [ConsoleLog (summary_line (template (pageDescription opts))
                      (violations_length results) (countByImpact results))]
              else [])"
    and d3: "getArtifactsDir e (outputDir opts) \<in> set (dirs w3)"
    and run: "fst (runA11yTestAndGenerateReports e opts w) =
       fst (write_reports e opts (template (pageDescription opts))
             (getArtifactsDir e (outputDir opts)) results (violations_length results) w3)"
    by (auto simp: fst_after_reports)
  obtain cs where
    "calls (fst (write_reports e opts (template (pageDescription opts))
             (getArtifactsDir e (outputDir opts)) results (violations_length results) w3)) =
       calls w3 @ cs"
    "list_all is_report_call cs" "violations_length results = 0 \<longrightarrow> cs = []"
    "dirs (fst (write_reports e opts (template (pageDescription opts))
             (getArtifactsDir e (outputDir opts)) results (violations_length results) w3)) =
       dirs w3"
    using write_reports_calls_zero [of e opts "template (pageDescription opts)"
      "getArtifactsDir e (outputDir opts)" results "violations_length results" w3]
    by (elim exE conjE)
  with c3 d3 run show ?thesis by (intro exI [of _ cs]) simp
qed

lemma run_scan_ok_outcome:
  assumes "truthy (pageDescription opts)"
    and "getArtifactsDir e (outputDir opts) \<in> set (dirs w) \<or> mkdir_error e = None"
    and "analyze_outcome e = Inr results"
  shows "snd (runA11yTestAndGenerateReports e opts w) =
           (case snd (write_reports e opts (template (pageDescription opts))
                       (getArtifactsDir e (outputDir opts)) results (violations_length results) w') of
              Inl err \<Rightarrow> Inl err
            | Inr (hp, jp) \<Rightarrow>
                fail_logic opts (template (pageDescription opts)) results
                  (violations_length results) (countByImpact results) hp jp)"
proof -
  from run_scan_ok [OF assms] obtain w3 where
    "snd (runA11yTestAndGenerateReports e opts w) =
       (case snd (write_reports e opts (template (pageDescription opts))
                   (getArtifactsDir e (outputDir opts)) results (violations_length results) w3) of
          Inl err \<Rightarrow> Inl err
        | Inr (hp, jp) \<Rightarrow>
            fail_logic opts (template (pageDescription opts)) results
              (violations_length results) (countByImpact results) hp jp)"
    by (auto simp: snd_after_reports)
  then show ?thesis
    by (simp add: write_reports_snd [of e opts _ _ results _ w3 w'])
qed

lemma run_scan_ok_html_called:
  assumes "truthy (pageDescription opts)"
    and "getArtifactsDir e (outputDir opts) \<in> set (dirs w) \<or> mkdir_error e = None"
    and "analyze_outcome e = Inr results"
    and "0 < violations_length results" "generateHtmlReport opts \<noteq> Some False"
  shows "CreateHtmlReport results
     ([(''projectKey'', template (pageDescription opts)),
       (''reportFileName'', reportBaseName (now e) (template (pageDescription opts)) @ ''.html''),
       (''outputDirPath'', getArtifactsDir e (outputDir opts)), (''outputDir'', ''.'')] @
      (case reporterOptions opts of None \<Rightarrow> [] | Some ro \<Rightarrow> ro))
     \<in> set (calls (fst (runA11yTestAndGenerateReports e opts w)))"
proof -
  from run_scan_ok [OF assms(1-3)] obtain w3 where
    run: "fst (runA11yTestAndGenerateReports e opts w) =
       fst (write_reports e opts (template (pageDescription opts))
             (getArtifactsDir e (outputDir opts)) results (violations_length results) w3)"
    by (auto simp: fst_after_reports)
  show ?thesis unfolding run by (rule write_reports_html_called [OF assms(4,5)])
qed

lemma run_outcome_cases:
  obtains
    (Description) "\<not> truthy (pageDescription opts)"
      "snd (runA11yTestAndGenerateReports e opts w) =
         Inl (InvalidConfiguration ''pageDescription is required and must be a non-empty string'')"
  | (Mkdir) m where "truthy (pageDescription opts)"
      "snd (runA11yTestAndGenerateReports e opts w) = Inl (FsError m)"
  | (Scan) m where "truthy (pageDescription opts)"
      "snd (runA11yTestAndGenerateReports e opts w) = Inl (ScanEngineFailure m)"
  | (Report) m where "truthy (pageDescription opts)"
      "snd (runA11yTestAndGenerateReports e opts w) = Inl (ReportWriteFailure m)"
  | (Decision) results hp jp where "reaches_fail_logic e opts w results"
      "snd (runA11yTestAndGenerateReports e opts w) =
         fail_logic opts (template (pageDescription opts)) results (violations_length results)
           (countByImpact results) hp jp"
proof (cases "truthy (pageDescription opts)")
  case False
  then show ?thesis
    using Description by (simp add: run_invalid_description)
next
  case t: True
  show ?thesis
  proof (cases "getArtifactsDir e (outputDir opts) \<in> set (dirs w) \<or> mkdir_error e = None")
    case False
    then obtain m where "getArtifactsDir e (outputDir opts) \<notin> set (dirs w)" "mkdir_error e = Some m"
      by auto
    from run_mkdir_fails [OF t this] show ?thesis
      using Mkdir t by simp
  next
    case d: True
    show ?thesis
    proof (cases "analyze_outcome e")
      case (Inl m)
      from run_scan_fails [OF t d Inl] show ?thesis
        using Scan t by simp
    next
      case (Inr results)
      note out = run_scan_ok_outcome [OF t d Inr, of w]
      show ?thesis
      proof (cases "violations_length results = 0 \<or>
          (generateHtmlReport opts = Some False \<or> createHtmlReport_error e = None) \<and>
          (generateJsonReport opts = Some False \<or> writeFile_error e = None)")
        case True
        then have r: "reaches_fail_logic e opts w results"
          using t d Inr by (simp add: reaches_fail_logic_def)
        from write_reports_ok [OF True] obtain hp jp where
          "snd (write_reports e opts (template (pageDescription opts))
                 (getArtifactsDir e (outputDir opts)) results (violations_length results) w) =
             Inr (hp, jp)"
          by (metis prod.exhaust)
        with out r show ?thesis
          using Decision by simp
      next
        case False
        then have "0 < violations_length results"
          "\<not> ((generateHtmlReport opts = Some False \<or> createHtmlReport_error e = None) \<and>
              (generateJsonReport opts = Some False \<or> writeFile_error e = None))"
          by auto
        from write_reports_fails [OF this] obtain m where
          "snd (write_reports e opts (template (pageDescription opts))
                 (getArtifactsDir e (outputDir opts)) results (violations_length results) w) =
             Inl (ReportWriteFailure m)"
          by blast
        with out show ?thesis
          using Report t by simp
      qed
    qed
  qed
qed

lemma run_reaches_fail_logic:
  assumes "reaches_fail_logic e opts w results"
  shows "\<exists>hp jp. snd (runA11yTestAndGenerateReports e opts w) =
           fail_logic opts (template (pageDescription opts)) results (violations_length results)
             (countByImpact results) hp jp"
proof -
  from assms have t: "truthy (pageDescription opts)"
    and d: "getArtifactsDir e (outputDir opts) \<in> set (dirs w) \<or> mkdir_error e = None"
    and a: "analyze_outcome e = Inr results"
    and ok: "violations_length results = 0 \<or>
          (generateHtmlReport opts = Some False \<or> createHtmlReport_error e = None) \<and>
          (generateJsonReport opts = Some False \<or> writeFile_error e = None)"
    by (simp_all add: reaches_fail_logic_def)
  from write_reports_ok [OF ok] obtain hp jp where
    "snd (write_reports e opts (template (pageDescription opts))
           (getArtifactsDir e (outputDir opts)) results (violations_length results) w) =
       Inr (hp, jp)"
    by (metis prod.exhaust)
  with run_scan_ok_outcome [OF t d a, of w] show ?thesis by auto
qed

lemma run_raises_violations:
  assumes "snd (runA11yTestAndGenerateReports e opts w) = Inl (AccessibilityViolationsFound fs m)"
  shows "failOnViolations opts = Some True \<and> fs \<noteq> [] \<and>
         (\<exists>results impacts. analyze_outcome e = Inr results \<and>
            configured_impacts opts = Array impacts \<and> set impacts \<subseteq> set validImpacts \<and>
            fs = filterViolationsByImpact results impacts)"
proof (cases e opts w rule: run_outcome_cases)
  case (Decision results hp jp)
  from Decision(2) assms fail_logic_raises_violations [of opts _ results _ _ hp jp fs m]
  have "failOnViolations opts = Some True \<and> fs \<noteq> [] \<and>
         (\<exists>impacts. configured_impacts opts = Array impacts \<and> set impacts \<subseteq> set validImpacts \<and>
            fs = filterViolationsByImpact results impacts)"
    by simp
  moreover from Decision(1) have "analyze_outcome e = Inr results"
    by (simp add: reaches_fail_logic_def)
  ultimately show ?thesis by blast
qed (use assms in simp_all)

lemma run_decision:
  assumes "reaches_fail_logic e opts w results" "configured_impacts opts = Array impacts"
    "set impacts \<subseteq> set validImpacts"
  shows "if failOnViolations opts = Some True \<and> filterViolationsByImpact results impacts \<noteq> []
         then \<exists>m. snd (runA11yTestAndGenerateReports e opts w) =
                Inl (AccessibilityViolationsFound (filterViolationsByImpact results impacts) m)
         else snd (runA11yTestAndGenerateReports e opts w) = Inr results"
  using run_reaches_fail_logic [OF assms(1)] by (auto simp: fail_logic_valid [OF assms(2,3)])

lemma run_not_fs_error:
  assumes "truthy (pageDescription opts)"
    and "getArtifactsDir e (outputDir opts) \<in> set (dirs w) \<or> mkdir_error e = None"
  shows "snd (runA11yTestAndGenerateReports e opts w) \<noteq> Inl (FsError m)"
proof (cases "analyze_outcome e")
  case (Inl m')
  from run_scan_fails [OF assms Inl] show ?thesis by simp
next
  case (Inr results)
  note out = run_scan_ok_outcome [OF assms Inr, of w]
  from write_reports_outcome [of e opts "template (pageDescription opts)"
      "getArtifactsDir e (outputDir opts)" results "violations_length results" w]
  show ?thesis
  proof
    assume "\<exists>ps. snd (write_reports e opts (template (pageDescription opts))
        (getArtifactsDir e (outputDir opts)) results (violations_length results) w) = Inr ps"
    then obtain hp jp where "snd (write_reports e opts (template (pageDescription opts))
        (getArtifactsDir e (outputDir opts)) results (violations_length results) w) = Inr (hp, jp)"
      by (metis prod.exhaust)
    with out have "snd (runA11yTestAndGenerateReports e opts w) =
        fail_logic opts (template (pageDescription opts)) results (violations_length results)
          (countByImpact results) hp jp"
      by simp
    then show ?thesis
      by (cases opts rule: fail_logic_cases)
        (simp_all add: fail_logic_not_array fail_logic_invalid fail_logic_valid)
  next
    assume "\<exists>m. snd (write_reports e opts (template (pageDescription opts))
        (getArtifactsDir e (outputDir opts)) results (violations_length results) w) =
          Inl (ReportWriteFailure m)"
    with out show ?thesis by auto
  qed
qed

lemma write_reports_due_calls:
  "violations_length results = 0 \<or> generateHtmlReport opts = Some False \<or>
   createHtmlReport_error e = None \<Longrightarrow>
   calls (fst (write_reports e opts (template (pageDescription opts))
                (getArtifactsDir e (outputDir opts)) results (violations_length results) w)) =
     calls w @ due_report_calls e opts results"
  by (auto simp: write_reports_def writeHtmlReport_def writeJsonReport_def record_call_def Let_def
      due_report_calls_def split: option.splits)

lemma run_due_calls:
  assumes "truthy (pageDescription opts)"
    and "getArtifactsDir e (outputDir opts) \<in> set (dirs w) \<or> mkdir_error e = None"
    and "analyze_outcome e = Inr results"
    and "violations_length results = 0 \<or> generateHtmlReport opts = Some False \<or>
         createHtmlReport_error e = None"
  shows "calls (fst (runA11yTestAndGenerateReports e opts w)) =
           calls w @ Mkdir (getArtifactsDir e (outputDir opts)) True #
           Analyze (configured_builder (page opts) (include_sel opts) (exclude_sel opts)
             (tags opts) (disableRules opts)) #
           (if logSummary opts \<noteq> Some False
            then [ConsoleLog (summary_line (template (pageDescription opts))
                    (violations_length results) (countByImpact results))]
            else []) @ due_report_calls e opts results"
proof -
  from run_scan_ok [OF assms(1-3)] obtain w3 where
    c3: "calls w3 = calls w @ Mkdir (getArtifactsDir e (outputDir opts)) True #
             Analyze (configured_builder (page opts) (include_sel opts) (exclude_sel opts)
               (tags opts) (disableRules opts)) #
             (if logSummary opts \<noteq> Some False
              then [ConsoleLog (summary_line (template (pageDescription opts))
                      (violations_length results) (countByImpact results))]
              else [])"
    and run: "fst (runA11yTestAndGenerateReports e opts w) =
       fst (write_reports e opts (template (pageDescription opts))
             (getArtifactsDir e (outputDir opts)) results (violations_length results) w3)"
    by (auto simp: fst_after_reports)
  show ?thesis
    unfolding run write_reports_due_calls [OF assms(4)] c3 by simp
qed

lemma reaches_fail_logic_calls:
  assumes "reaches_fail_logic e opts w results"
  shows "calls (fst (runA11yTestAndGenerateReports e opts w)) =
           calls w @ Mkdir (getArtifactsDir e (outputDir opts)) True #
           Analyze (configured_builder (page opts) (include_sel opts) (exclude_sel opts)
             (tags opts) (disableRules opts)) #
           (if logSummary opts \<noteq> Some False
            then [ConsoleLog (summary_line (template (pageDescription opts))
                    (violations_length results) (countByImpact results))]
            else []) @ due_report_calls e opts results"
  using assms by (intro run_due_calls) (auto simp: reaches_fail_logic_def)

lemma filterViolationsByImpact_eq:
  "[] \<notin> set impacts \<Longrightarrow>
   filterViolationsByImpact results impacts =
     filter (\<lambda>v. impact v \<in> Str ` set impacts) (violations_or_empty results)"
proof -
  assume a: "[] \<notin> set impacts"
  have "(truthy x \<and> has_impact impacts x) = (x \<in> Str ` set impacts)" for x
    using a by (cases x) auto
  then show ?thesis
    by (simp add: filterViolationsByImpact_def)
qed

lemma valid_impacts_nonempty: "set impacts \<subseteq> set validImpacts \<Longrightarrow> [] \<notin> set impacts"
  by (auto simp: validImpacts_def)

section \<open>The claims\<close>

text \<open>
  C1, as amended. For every configuration whose \<open>failImpacts\<close> holds a value outside
  minor, moderate, serious and critical, \<open>runA11yTestAndGenerateReports\<close> never returns
  a result and never raises the error of found violations. The error of the invalid
  \<open>failImpacts\<close> is raised in the fail logic at the end of the run: a run that gets
  that far raises it, naming the offending values, and its calls to the outside are by
  then the creation of the output directory, the call of the scan engine, the summary
  line unless \<open>logSummary\<close> is false, and every report that is due. Whenever
  \<open>pageDescription\<close> is a non-empty string and the run raises an error of invalid
  configuration, the run has got that far and has made exactly these calls. With a
  \<open>pageDescription\<close> that is not a non-empty string the error is raised before any
  call to the outside.
\<close>

theorem invalid_failImpacts_raised_after_scan:
  assumes "configured_impacts opts = Array impacts" and "\<not> set impacts \<subseteq> set validImpacts"
  shows "(\<forall>r. snd (runA11yTestAndGenerateReports e opts w) \<noteq> Inr r) \<and>
         (\<forall>fs m. snd (runA11yTestAndGenerateReports e opts w) \<noteq>
            Inl (AccessibilityViolationsFound fs m)) \<and>
         (reaches_fail_logic e opts w results \<longrightarrow>
            snd (runA11yTestAndGenerateReports e opts w) =
              Inl (InvalidConfiguration
                (''Invalid impact levels: '' @
                 join '', '' (filter (\<lambda>i. i \<notin> set validImpacts) impacts) @
                 ''. Valid values are: '' @ join '', '' validImpacts)) \<and>
            calls (fst (runA11yTestAndGenerateReports e opts w)) =
              calls w @ Mkdir (getArtifactsDir e (outputDir opts)) True #
              Analyze (configured_builder (page opts) (include_sel opts) (exclude_sel opts)
                (tags opts) (disableRules opts)) #
              (if logSummary opts \<noteq> Some False
               then [ConsoleLog (summary_line (template (pageDescription opts))
                       (violations_length results) (countByImpact results))]
               else []) @ due_report_calls e opts results) \<and>
         (truthy (pageDescription opts) \<and>
          snd (runA11yTestAndGenerateReports e opts w) = Inl (InvalidConfiguration m) \<longrightarrow>
            (\<exists>results'. reaches_fail_logic e opts w results' \<and>
               calls (fst (runA11yTestAndGenerateReports e opts w)) =
                 calls w @ Mkdir (getArtifactsDir e (outputDir opts)) True #
                 Analyze (configured_builder (page opts) (include_sel opts) (exclude_sel opts)
                   (tags opts) (disableRules opts)) #
                 (if logSummary opts \<noteq> Some False
                  then [ConsoleLog (summary_line (template (pageDescription opts))
                          (violations_length results') (countByImpact results'))]
                  else []) @ due_report_calls e opts results')) \<and>
         (\<not> truthy (pageDescription opts) \<longrightarrow>
            runA11yTestAndGenerateReports e opts w =
              (w, Inl (InvalidConfiguration
                 ''pageDescription is required and must be a non-empty string'')))"
proof (intro conjI allI impI)
  show "snd (runA11yTestAndGenerateReports e opts w) \<noteq> Inr r" for r
    by (cases e opts w rule: run_outcome_cases) (simp_all add: fail_logic_invalid [OF assms])
  show "snd (runA11yTestAndGenerateReports e opts w) \<noteq> Inl (AccessibilityViolationsFound fs m')"
    for fs m'
    by (cases e opts w rule: run_outcome_cases) (simp_all add: fail_logic_invalid [OF assms])
  show "snd (runA11yTestAndGenerateReports e opts w) =
      Inl (InvalidConfiguration
        (''Invalid impact levels: '' @ join '', '' (filter (\<lambda>i. i \<notin> set validImpacts) impacts) @
         ''. Valid values are: '' @ join '', '' validImpacts))"
    if "reaches_fail_logic e opts w results"
    using run_reaches_fail_logic [OF that] by (auto simp: fail_logic_invalid [OF assms])
  show "calls (fst (runA11yTestAndGenerateReports e opts w)) =
      calls w @ Mkdir (getArtifactsDir e (outputDir opts)) True #
      Analyze (configured_builder (page opts) (include_sel opts) (exclude_sel opts)
        (tags opts) (disableRules opts)) #
      (if logSummary opts \<noteq> Some False
       then [ConsoleLog (summary_line (template (pageDescription opts))
               (violations_length results) (countByImpact results))]
       else []) @ due_report_calls e opts results"
    if "reaches_fail_logic e opts w results"
    using that by (rule reaches_fail_logic_calls)
  show "\<exists>results'. reaches_fail_logic e opts w results' \<and>
      calls (fst (runA11yTestAndGenerateReports e opts w)) =
        calls w @ Mkdir (getArtifactsDir e (outputDir opts)) True #
        Analyze (configured_builder (page opts) (include_sel opts) (exclude_sel opts)
          (tags opts) (disableRules opts)) #
        (if logSummary opts \<noteq> Some False
         then [ConsoleLog (summary_line (template (pageDescription opts))
                 (violations_length results') (countByImpact results'))]
         else []) @ due_report_calls e opts results'"
    if a: "truthy (pageDescription opts) \<and>
      snd (runA11yTestAndGenerateReports e opts w) = Inl (InvalidConfiguration m)"
  proof (cases e opts w rule: run_outcome_cases)
    case (Decision results' hp jp)
    from reaches_fail_logic_calls [OF Decision(1)] Decision(1) show ?thesis by blast
  qed (use a in simp_all)
  show "runA11yTestAndGenerateReports e opts w =
      (w, Inl (InvalidConfiguration ''pageDescription is required and must be a non-empty string''))"
    if "\<not> truthy (pageDescription opts)"
    using that by (rule run_invalid_description)
qed

theorem invalid_failImpacts_raised_after_scan_witness:
  "configured_impacts (example_options\<lparr>failImpacts := Some (Array [''critical'', ''blocker''])\<rparr>) =
     Array [''critical'', ''blocker''] \<and>
   \<not> set [''critical'', ''blocker''] \<subseteq> set validImpacts \<and>
   reaches_fail_logic example_env
     (example_options\<lparr>failImpacts := Some (Array [''critical'', ''blocker''])\<rparr>) empty_world
     example_results \<and>
   truthy (pageDescription (example_options\<lparr>failImpacts := Some (Array [''critical'', ''blocker''])\<rparr>)) \<and>
   snd (runA11yTestAndGenerateReports example_env
          (example_options\<lparr>failImpacts := Some (Array [''critical'', ''blocker''])\<rparr>) empty_world) =
     Inl (InvalidConfiguration
       (''Invalid impact levels: '' @
        join '', '' (filter (\<lambda>i. i \<notin> set validImpacts) [''critical'', ''blocker'']) @
        ''. Valid values are: '' @ join '', '' validImpacts)) \<and>
   calls (fst (runA11yTestAndGenerateReports example_env
            (example_options\<lparr>failImpacts := Some (Array [''critical'', ''blocker''])\<rparr>)
            empty_world)) =
     [Mkdir ''/repo/artifacts/accessibility'' True,
      Analyze \<lparr>b_page = 0, b_include = [], b_exclude = [], b_disabled = [],
               b_tags = [''wcag2a'', ''wcag2aa'', ''wcag21a'', ''wcag21aa'']\<rparr>,
      ConsoleLog ''[A11Y] My Page! 2024 -> total=4 (critical=2, serious=1, moderate=0, minor=0)'',
      CreateHtmlReport example_results
        [(''projectKey'', ''My Page! 2024''),
         (''reportFileName'', ''my-page-2024-2024-03-09T07-05-01-042Z.html''),
         (''outputDirPath'', ''/repo/artifacts/accessibility''),
         (''outputDir'', ''.'')],
      WriteFile ''/repo/artifacts/accessibility/my-page-2024-2024-03-09T07-05-01-042Z.json''
        example_results] \<and>
   (\<exists>results'. reaches_fail_logic example_env
        (example_options\<lparr>failImpacts := Some (Array [''critical'', ''blocker''])\<rparr>) empty_world
        results') \<and>
   \<not> truthy (pageDescription (example_options\<lparr>pageDescription := Str [],
                failImpacts := Some (Array [''critical'', ''blocker''])\<rparr>)) \<and>
   runA11yTestAndGenerateReports example_env
     (example_options\<lparr>pageDescription := Str [],
        failImpacts := Some (Array [''critical'', ''blocker''])\<rparr>) empty_world =
     (empty_world,
      Inl (InvalidConfiguration ''pageDescription is required and must be a non-empty string''))"
proof -
  let ?o = "example_options\<lparr>failImpacts := Some (Array [''critical'', ''blocker''])\<rparr>"
  let ?o' = "example_options\<lparr>pageDescription := Str [],
    failImpacts := Some (Array [''critical'', ''blocker''])\<rparr>"
  have h: "configured_impacts ?o = Array [''critical'', ''blocker'']"
    "\<not> set [''critical'', ''blocker''] \<subseteq> set validImpacts"
    by (simp_all add: configured_impacts_def validImpacts_def)
  have h': "configured_impacts ?o' = Array [''critical'', ''blocker'']"
    by (simp add: configured_impacts_def)
  have r: "reaches_fail_logic example_env ?o empty_world example_results"
    "truthy (pageDescription ?o)" "\<not> truthy (pageDescription ?o')"
    by (simp_all add: reaches_fail_logic_def example_env_def example_options_def)
  have d: "calls empty_world @ Mkdir (getArtifactsDir example_env (outputDir ?o)) True #
      Analyze (configured_builder (page ?o) (include_sel ?o) (exclude_sel ?o) (tags ?o)
        (disableRules ?o)) #
      (if logSummary ?o \<noteq> Some False
       then [ConsoleLog (summary_line (template (pageDescription ?o))
               (violations_length example_results) (countByImpact example_results))]
       else []) @ due_report_calls example_env ?o example_results =
     [Mkdir ''/repo/artifacts/accessibility'' True,
      Analyze \<lparr>b_page = 0, b_include = [], b_exclude = [], b_disabled = [],
               b_tags = [''wcag2a'', ''wcag2aa'', ''wcag21a'', ''wcag21aa'']\<rparr>,
      ConsoleLog ''[A11Y] My Page! 2024 -> total=4 (critical=2, serious=1, moderate=0, minor=0)'',
      CreateHtmlReport example_results
        [(''projectKey'', ''My Page! 2024''),
         (''reportFileName'', ''my-page-2024-2024-03-09T07-05-01-042Z.html''),
         (''outputDirPath'', ''/repo/artifacts/accessibility''),
         (''outputDir'', ''.'')],
      WriteFile ''/repo/artifacts/accessibility/my-page-2024-2024-03-09T07-05-01-042Z.json''
        example_results]"
    by code_simp
  note a = invalid_failImpacts_raised_after_scan [OF h, of example_env empty_world example_results]
  note b = invalid_failImpacts_raised_after_scan [OF h' h(2), of example_env empty_world]
  from a r have v: "snd (runA11yTestAndGenerateReports example_env ?o empty_world) =
     Inl (InvalidConfiguration
       (''Invalid impact levels: '' @
        join '', '' (filter (\<lambda>i. i \<notin> set validImpacts) [''critical'', ''blocker'']) @
        ''. Valid values are: '' @ join '', '' validImpacts))"
    by blast
  from a r have c: "calls (fst (runA11yTestAndGenerateReports example_env ?o empty_world)) =
     calls empty_world @ Mkdir (getArtifactsDir example_env (outputDir ?o)) True #
      Analyze (configured_builder (page ?o) (include_sel ?o) (exclude_sel ?o) (tags ?o)
        (disableRules ?o)) #
      (if logSummary ?o \<noteq> Some False
       then [ConsoleLog (summary_line (template (pageDescription ?o))
               (violations_length example_results) (countByImpact example_results))]
       else []) @ due_report_calls example_env ?o example_results"
    by blast
  from a [of "''Invalid impact levels: '' @
        join '', '' (filter (\<lambda>i. i \<notin> set validImpacts) [''critical'', ''blocker'']) @
        ''. Valid values are: '' @ join '', '' validImpacts"] r v
  have x: "\<exists>results'. reaches_fail_logic example_env ?o empty_world results'"
    by blast
  from b r have y: "runA11yTestAndGenerateReports example_env ?o' empty_world =
     (empty_world,
      Inl (InvalidConfiguration ''pageDescription is required and must be a non-empty string''))"
    by blast
  from h r v c [unfolded d] x y show ?thesis by blast
qed

theorem invalid_failImpacts_raised_after_scan_counterexample:
  "snd (runA11yTestAndGenerateReports example_env
          (example_options\<lparr>failImpacts := Some (Array [''critical'', ''blocker''])\<rparr>) empty_world) =
     Inl (InvalidConfiguration
       ''Invalid impact levels: blocker. Valid values are: critical, serious, moderate, minor'') \<and>
   calls (fst (runA11yTestAndGenerateReports example_env
          (example_options\<lparr>failImpacts := Some (Array [''critical'', ''blocker''])\<rparr>) empty_world)) =
     [Mkdir ''/repo/artifacts/accessibility'' True,
      Analyze \<lparr>b_page = 0, b_include = [], b_exclude = [], b_disabled = [],
               b_tags = [''wcag2a'', ''wcag2aa'', ''wcag21a'', ''wcag21aa'']\<rparr>,
      ConsoleLog ''[A11Y] My Page! 2024 -> total=4 (critical=2, serious=1, moderate=0, minor=0)'',
      CreateHtmlReport example_results
        [(''projectKey'', ''My Page! 2024''),
         (''reportFileName'', ''my-page-2024-2024-03-09T07-05-01-042Z.html''),
         (''outputDirPath'', ''/repo/artifacts/accessibility''),
         (''outputDir'', ''.'')],
      WriteFile ''/repo/artifacts/accessibility/my-page-2024-2024-03-09T07-05-01-042Z.json''
        example_results]"
  by code_simp

text \<open>
  C2, as amended. The failing subset is the sequence of the violation records whose
  severity is a member of \<open>failImpacts\<close>, in the order of the scan result: for
  \<open>failImpacts\<close> without the empty string, as every array of known levels is, that is
  what \<open>filterViolationsByImpact\<close> returns. \<open>runA11yTestAndGenerateReports\<close> raises the
  error of found violations only if \<open>failOnViolations\<close> is true, \<open>failImpacts\<close> holds
  known levels only and the failing subset is not empty; the error holds that subset.
  When the run gets as far as the fail logic and \<open>failImpacts\<close> holds known levels only,
  it raises that error if \<open>failOnViolations\<close> is true and the failing subset is not
  empty, and returns the scan result otherwise. For a result with the counts critical 2,
  serious 1, moderate 0, minor 0 and \<open>failImpacts\<close> critical alone, the failing subset
  has two entries, and they are what the raised error holds.
\<close>

theorem failure_decision:
  "([] \<notin> set impacts \<longrightarrow>
      filterViolationsByImpact results impacts =
        filter (\<lambda>v. impact v \<in> Str ` set impacts) (violations_or_empty results)) \<and>
   (snd (runA11yTestAndGenerateReports e opts w) = Inl (AccessibilityViolationsFound fs m) \<longrightarrow>
      failOnViolations opts = Some True \<and> fs \<noteq> [] \<and>
      (\<exists>results impacts. analyze_outcome e = Inr results \<and>
         configured_impacts opts = Array impacts \<and> fs = filterViolationsByImpact results impacts) \<and>
      (\<exists>results impacts. analyze_outcome e = Inr results \<and>
         configured_impacts opts = Array impacts \<and> set impacts \<subseteq> set validImpacts \<and>
         fs = filter (\<lambda>v. impact v \<in> Str ` set impacts) (violations_or_empty results))) \<and>
   (reaches_fail_logic e opts w results \<and> configured_impacts opts = Array impacts \<and>
    set impacts \<subseteq> set validImpacts \<longrightarrow>
      (if failOnViolations opts = Some True \<and> filterViolationsByImpact results impacts \<noteq> []
       then \<exists>msg. snd (runA11yTestAndGenerateReports e opts w) =
              Inl (AccessibilityViolationsFound (filterViolationsByImpact results impacts) msg)
       else snd (runA11yTestAndGenerateReports e opts w) = Inr results) \<and>
      (if failOnViolations opts = Some True \<and>
          filter (\<lambda>v. impact v \<in> Str ` set impacts) (violations_or_empty results) \<noteq> []
       then \<exists>msg. snd (runA11yTestAndGenerateReports e opts w) =
              Inl (AccessibilityViolationsFound
                (filter (\<lambda>v. impact v \<in> Str ` set impacts) (violations_or_empty results)) msg)
       else snd (runA11yTestAndGenerateReports e opts w) = Inr results)) \<and>
   (countByImpact results = \<lparr>critical = 2, serious = 1, moderate = 0, minor = 0\<rparr> \<longrightarrow>
      length (filterViolationsByImpact results [''critical'']) = 2 \<and>
      (reaches_fail_logic e opts w results \<and> failOnViolations opts = Some True \<and>
       failImpacts opts = Some (Array [''critical'']) \<longrightarrow>
         (\<exists>msg. snd (runA11yTestAndGenerateReports e opts w) =
            Inl (AccessibilityViolationsFound (filterViolationsByImpact results [''critical'']) msg))))"
proof (intro conjI impI)
  show "filterViolationsByImpact results impacts =
        filter (\<lambda>v. impact v \<in> Str ` set impacts) (violations_or_empty results)"
    if "[] \<notin> set impacts"
    using that by (rule filterViolationsByImpact_eq)
next
  assume "snd (runA11yTestAndGenerateReports e opts w) = Inl (AccessibilityViolationsFound fs m)"
  note r = run_raises_violations [OF this]
  from r show "failOnViolations opts = Some True" "fs \<noteq> []"
    "\<exists>results impacts. analyze_outcome e = Inr results \<and>
         configured_impacts opts = Array impacts \<and> fs = filterViolationsByImpact results impacts"
    by blast+
  from r obtain results' impacts' where
    "analyze_outcome e = Inr results'" "configured_impacts opts = Array impacts'"
    "set impacts' \<subseteq> set validImpacts" "fs = filterViolationsByImpact results' impacts'"
    by blast
  moreover from this have
    "fs = filter (\<lambda>v. impact v \<in> Str ` set impacts') (violations_or_empty results')"
    by (simp add: filterViolationsByImpact_eq valid_impacts_nonempty)
  ultimately show "\<exists>results impacts. analyze_outcome e = Inr results \<and>
         configured_impacts opts = Array impacts \<and> set impacts \<subseteq> set validImpacts \<and>
         fs = filter (\<lambda>v. impact v \<in> Str ` set impacts) (violations_or_empty results)"
    by blast
next
  assume a: "reaches_fail_logic e opts w results \<and> configured_impacts opts = Array impacts \<and>
    set impacts \<subseteq> set validImpacts"
  then show d: "if failOnViolations opts = Some True \<and> filterViolationsByImpact results impacts \<noteq> []
       then \<exists>msg. snd (runA11yTestAndGenerateReports e opts w) =
              Inl (AccessibilityViolationsFound (filterViolationsByImpact results impacts) msg)
       else snd (runA11yTestAndGenerateReports e opts w) = Inr results"
    by (intro run_decision) simp_all
  from a have eq: "filterViolationsByImpact results impacts =
      filter (\<lambda>v. impact v \<in> Str ` set impacts) (violations_or_empty results)"
    by (simp add: filterViolationsByImpact_eq valid_impacts_nonempty)
  from d show "if failOnViolations opts = Some True \<and>
          filter (\<lambda>v. impact v \<in> Str ` set impacts) (violations_or_empty results) \<noteq> []
       then \<exists>msg. snd (runA11yTestAndGenerateReports e opts w) =
              Inl (AccessibilityViolationsFound
                (filter (\<lambda>v. impact v \<in> Str ` set impacts) (violations_or_empty results)) msg)
       else snd (runA11yTestAndGenerateReports e opts w) = Inr results"
    unfolding eq .
next
  assume c: "countByImpact results = \<lparr>critical = 2, serious = 1, moderate = 0, minor = 0\<rparr>"
  show two: "length (filterViolationsByImpact results [''critical'']) = 2"
    using critical_subset_of_counts [of results] by (simp add: c)
  assume r: "reaches_fail_logic e opts w results \<and> failOnViolations opts = Some True \<and>
       failImpacts opts = Some (Array [''critical''])"
  then have "configured_impacts opts = Array [''critical'']"
    by (simp add: configured_impacts_def)
  moreover have "set [''critical''] \<subseteq> set validImpacts"
    by (simp add: validImpacts_def)
  moreover from two have "filterViolationsByImpact results [''critical''] \<noteq> []"
    by auto
  ultimately show "\<exists>msg. snd (runA11yTestAndGenerateReports e opts w) =
            Inl (AccessibilityViolationsFound (filterViolationsByImpact results [''critical'']) msg)"
    using run_decision [of e opts w results "[''critical'']"] r by simp
qed

theorem failure_decision_witness:
  "reaches_fail_logic example_env example_options empty_world example_results \<and>
   configured_impacts example_options = Array [''critical''] \<and>
   set [''critical''] \<subseteq> set validImpacts \<and>
   failOnViolations example_options = Some True \<and>
   failImpacts example_options = Some (Array [''critical'']) \<and>
   countByImpact example_results = \<lparr>critical = 2, serious = 1, moderate = 0, minor = 0\<rparr> \<and>
   length (filterViolationsByImpact example_results [''critical'']) = 2 \<and>
   (\<exists>msg. snd (runA11yTestAndGenerateReports example_env example_options empty_world) =
      Inl (AccessibilityViolationsFound (filterViolationsByImpact example_results [''critical'']) msg)) \<and>
   snd (runA11yTestAndGenerateReports example_env example_options empty_world) =
     Inl (AccessibilityViolationsFound
       [example_violation (Str ''critical''), example_violation (Str ''critical'')]
       (join newline
         [''Accessibility test failed.'',
          ''Page: My Page! 2024'',
          ''URL: https://example.org/'',
          ''Fail impacts: critical'',
          ''Totals: total=4, critical=2, serious=1, moderate=0, minor=0'',
          ''HTML report: /repo/artifacts/accessibility/my-page-2024-2024-03-09T07-05-01-042Z.html'',
          ''JSON report: /repo/artifacts/accessibility/my-page-2024-2024-03-09T07-05-01-042Z.json'',
          [],
          ''Failing violations (2):'',
          ''  1. [critical] image-alt: Images must have alternate text'',
          ''     Nodes affected: 1'',
          ''     Help: https://example.org/image-alt'',
          ''  2. [critical] image-alt: Images must have alternate text'',
          ''     Nodes affected: 1'',
          ''     Help: https://example.org/image-alt''])) \<and>
   [] \<notin> set [''serious'', ''minor'', ''critical''] \<and>
   filterViolationsByImpact example_results [''serious'', ''minor'', ''critical''] =
     filter (\<lambda>v. impact v \<in> Str ` set [''serious'', ''minor'', ''critical''])
       (violations_or_empty example_results) \<and>
   filterViolationsByImpact example_results [''serious'', ''minor'', ''critical''] =
     [example_violation (Str ''critical''), example_violation (Str ''critical''),
      example_violation (Str ''serious'')] \<and>
   reaches_fail_logic example_env
     (example_options\<lparr>failImpacts := Some (Array [''serious'', ''minor'', ''critical''])\<rparr>)
     empty_world example_results \<and>
   configured_impacts
     (example_options\<lparr>failImpacts := Some (Array [''serious'', ''minor'', ''critical''])\<rparr>) =
     Array [''serious'', ''minor'', ''critical''] \<and>
   set [''serious'', ''minor'', ''critical''] \<subseteq> set validImpacts \<and>
   (\<exists>msg. snd (runA11yTestAndGenerateReports example_env
             (example_options\<lparr>failImpacts := Some (Array [''serious'', ''minor'', ''critical''])\<rparr>)
             empty_world) =
      Inl (AccessibilityViolationsFound
        [example_violation (Str ''critical''), example_violation (Str ''critical''),
         example_violation (Str ''serious'')] msg)) \<and>
   reaches_fail_logic example_env
     (example_options\<lparr>failImpacts := Some (Array [''moderate'', ''minor''])\<rparr>)
     empty_world example_results \<and>
   configured_impacts (example_options\<lparr>failImpacts := Some (Array [''moderate'', ''minor''])\<rparr>) =
     Array [''moderate'', ''minor''] \<and>
   set [''moderate'', ''minor''] \<subseteq> set validImpacts \<and>
   filterViolationsByImpact example_results [''moderate'', ''minor''] = [] \<and>
   snd (runA11yTestAndGenerateReports example_env
          (example_options\<lparr>failImpacts := Some (Array [''moderate'', ''minor''])\<rparr>) empty_world) =
     Inr example_results"
proof -
  let ?o3 = "example_options\<lparr>failImpacts := Some (Array [''serious'', ''minor'', ''critical''])\<rparr>"
  let ?o2 = "example_options\<lparr>failImpacts := Some (Array [''moderate'', ''minor''])\<rparr>"
  have r: "reaches_fail_logic example_env example_options empty_world example_results"
    "reaches_fail_logic example_env ?o3 empty_world example_results"
    "reaches_fail_logic example_env ?o2 empty_world example_results"
    by (simp_all add: reaches_fail_logic_def example_env_def example_options_def)
  have h: "configured_impacts example_options = Array [''critical'']"
    "set [''critical''] \<subseteq> set validImpacts"
    "failOnViolations example_options = Some True"
    "failImpacts example_options = Some (Array [''critical''])"
    by (simp_all add: configured_impacts_def example_options_def validImpacts_def)
  have h3: "configured_impacts ?o3 = Array [''serious'', ''minor'', ''critical'']"
    "set [''serious'', ''minor'', ''critical''] \<subseteq> set validImpacts"
    "[] \<notin> set [''serious'', ''minor'', ''critical'']"
    "failOnViolations ?o3 = Some True"
    by (simp_all add: configured_impacts_def example_options_def validImpacts_def)
  have h2: "configured_impacts ?o2 = Array [''moderate'', ''minor'']"
    "set [''moderate'', ''minor''] \<subseteq> set validImpacts"
    by (simp_all add: configured_impacts_def example_options_def validImpacts_def)
  have c: "countByImpact example_results = \<lparr>critical = 2, serious = 1, moderate = 0, minor = 0\<rparr>"
    by code_simp
  have f3: "filterViolationsByImpact example_results [''serious'', ''minor'', ''critical''] =
     [example_violation (Str ''critical''), example_violation (Str ''critical''),
      example_violation (Str ''serious'')]"
    by code_simp
  have f2: "filterViolationsByImpact example_results [''moderate'', ''minor''] = []"
    by code_simp
  have v: "snd (runA11yTestAndGenerateReports example_env example_options empty_world) =
     Inl (AccessibilityViolationsFound
       [example_violation (Str ''critical''), example_violation (Str ''critical'')]
       (join newline
         [''Accessibility test failed.'',
          ''Page: My Page! 2024'',
          ''URL: https://example.org/'',
          ''Fail impacts: critical'',
          ''Totals: total=4, critical=2, serious=1, moderate=0, minor=0'',
          ''HTML report: /repo/artifacts/accessibility/my-page-2024-2024-03-09T07-05-01-042Z.html'',
          ''JSON report: /repo/artifacts/accessibility/my-page-2024-2024-03-09T07-05-01-042Z.json'',
          [],
          ''Failing violations (2):'',
          ''  1. [critical] image-alt: Images must have alternate text'',
          ''     Nodes affected: 1'',
          ''     Help: https://example.org/image-alt'',
          ''  2. [critical] image-alt: Images must have alternate text'',
          ''     Nodes affected: 1'',
          ''     Help: https://example.org/image-alt'']))"
    by code_simp
  note a = failure_decision [of "[''critical'']" example_results example_env example_options
      empty_world]
  note a3 = failure_decision [of "[''serious'', ''minor'', ''critical'']" example_results
      example_env ?o3 empty_world]
  note a2 = failure_decision [of "[''moderate'', ''minor'']" example_results example_env ?o2
      empty_world]
  from a r(1) h c have p1: "length (filterViolationsByImpact example_results [''critical'']) = 2"
    "\<exists>msg. snd (runA11yTestAndGenerateReports example_env example_options empty_world) =
      Inl (AccessibilityViolationsFound (filterViolationsByImpact example_results [''critical'']) msg)"
    by blast+
  from a3 h3(3) have p3: "filterViolationsByImpact example_results [''serious'', ''minor'', ''critical''] =
     filter (\<lambda>v. impact v \<in> Str ` set [''serious'', ''minor'', ''critical''])
       (violations_or_empty example_results)"
    by blast
  from a3 r(2) h3 have "if failOnViolations ?o3 = Some True \<and>
      filterViolationsByImpact example_results [''serious'', ''minor'', ''critical''] \<noteq> []
    then \<exists>msg. snd (runA11yTestAndGenerateReports example_env ?o3 empty_world) =
      Inl (AccessibilityViolationsFound
        (filterViolationsByImpact example_results [''serious'', ''minor'', ''critical'']) msg)
    else snd (runA11yTestAndGenerateReports example_env ?o3 empty_world) = Inr example_results"
    by blast
  then have q3: "\<exists>msg. snd (runA11yTestAndGenerateReports example_env ?o3 empty_world) =
      Inl (AccessibilityViolationsFound
        [example_violation (Str ''critical''), example_violation (Str ''critical''),
         example_violation (Str ''serious'')] msg)"
    unfolding f3 using h3(4) by simp
  from a2 r(3) h2 have "if failOnViolations ?o2 = Some True \<and>
      filterViolationsByImpact example_results [''moderate'', ''minor''] \<noteq> []
    then \<exists>msg. snd (runA11yTestAndGenerateReports example_env ?o2 empty_world) =
      Inl (AccessibilityViolationsFound
        (filterViolationsByImpact example_results [''moderate'', ''minor'']) msg)
    else snd (runA11yTestAndGenerateReports example_env ?o2 empty_world) = Inr example_results"
    by blast
  then have q2: "snd (runA11yTestAndGenerateReports example_env ?o2 empty_world) =
     Inr example_results"
    unfolding f2 by simp
  from r h h3 h2 c f3 f2 v p1 p3 q3 q2 show ?thesis by blast
qed

theorem failure_decision_counterexample:
  "failOnViolations example_options = Some True \<and>
   configured_impacts example_options = Array [''critical''] \<and>
   analyze_outcome (example_env\<lparr>writeFile_error := Some ''ENOSPC''\<rparr>) = Inr example_results \<and>
   filterViolationsByImpact example_results [''critical''] \<noteq> [] \<and>
   snd (runA11yTestAndGenerateReports (example_env\<lparr>writeFile_error := Some ''ENOSPC''\<rparr>)
          example_options empty_world) =
     Inl (ReportWriteFailure ''Failed to write JSON report: ENOSPC'')"
  by code_simp

text \<open>
  C3. With \<open>failImpacts\<close> the empty array, the failing subset of every scan result is
  empty and \<open>runA11yTestAndGenerateReports\<close> never raises the error of found violations,
  whatever \<open>failOnViolations\<close> is and whatever the scan returned; a run that gets as far
  as the fail logic returns the scan result.
\<close>

theorem empty_failImpacts_never_fails:
  assumes "failImpacts opts = Some (Array [])"
  shows "filterViolationsByImpact results [] = [] \<and>
         (\<forall>fs m. snd (runA11yTestAndGenerateReports e opts w) \<noteq>
            Inl (AccessibilityViolationsFound fs m)) \<and>
         (reaches_fail_logic e opts w results \<longrightarrow>
            snd (runA11yTestAndGenerateReports e opts w) = Inr results)"
proof (intro conjI allI impI)
  show "filterViolationsByImpact results [] = []"
    by (rule filterViolationsByImpact_empty)
  have c: "configured_impacts opts = Array []"
    using assms by (simp add: configured_impacts_def)
  show "snd (runA11yTestAndGenerateReports e opts w) \<noteq> Inl (AccessibilityViolationsFound fs m)"
    for fs m
  proof
    assume "snd (runA11yTestAndGenerateReports e opts w) = Inl (AccessibilityViolationsFound fs m)"
    from run_raises_violations [OF this] c show False
      by (auto simp: filterViolationsByImpact_empty)
  qed
  assume "reaches_fail_logic e opts w results"
  from run_decision [OF this c] show "snd (runA11yTestAndGenerateReports e opts w) = Inr results"
    by (simp add: filterViolationsByImpact_empty)
qed

theorem empty_failImpacts_never_fails_witness:
  "failImpacts (example_options\<lparr>failImpacts := Some (Array [])\<rparr>) = Some (Array []) \<and>
   failOnViolations (example_options\<lparr>failImpacts := Some (Array [])\<rparr>) = Some True \<and>
   violations example_results \<noteq> Some [] \<and>
   reaches_fail_logic example_env (example_options\<lparr>failImpacts := Some (Array [])\<rparr>) empty_world
     example_results \<and>
   snd (runA11yTestAndGenerateReports example_env (example_options\<lparr>failImpacts := Some (Array [])\<rparr>)
          empty_world) = Inr example_results"
proof -
  have h: "failImpacts (example_options\<lparr>failImpacts := Some (Array [])\<rparr>) = Some (Array [])"
    by simp
  have r: "reaches_fail_logic example_env (example_options\<lparr>failImpacts := Some (Array [])\<rparr>)
      empty_world example_results"
    by (simp add: reaches_fail_logic_def example_env_def example_options_def)
  have f: "failOnViolations (example_options\<lparr>failImpacts := Some (Array [])\<rparr>) = Some True"
    "violations example_results \<noteq> Some []"
    by (simp_all add: example_options_def example_results_def)
  show ?thesis
    using empty_failImpacts_never_fails [OF h, of example_results example_env empty_world] h r f
    by blast
qed

text \<open>
  C4. When the scan returns no violations, \<open>runA11yTestAndGenerateReports\<close> makes no
  call that writes a report, neither \<open>createHtmlReport\<close> nor \<open>fs.writeFile\<close>, whatever
  \<open>generateHtmlReport\<close>, \<open>generateJsonReport\<close> and \<open>failOnViolations\<close> are.
\<close>

theorem no_reports_without_violations:
  assumes "analyze_outcome e = Inr results" and "violations_length results = 0"
  shows "\<exists>cs. calls (fst (runA11yTestAndGenerateReports e opts w)) = calls w @ cs \<and>
              list_all (\<lambda>c. \<not> is_report_call c) cs"
proof (cases "truthy (pageDescription opts)")
  case False
  then show ?thesis by (simp add: run_invalid_description)
next
  case t: True
  show ?thesis
  proof (cases "getArtifactsDir e (outputDir opts) \<in> set (dirs w) \<or> mkdir_error e = None")
    case False
    then obtain m where "getArtifactsDir e (outputDir opts) \<notin> set (dirs w)" "mkdir_error e = Some m"
      by auto
    from run_mkdir_fails [OF t this] show ?thesis by (simp add: record_call_def)
  next
    case d: True
    from run_scan_ok_calls [OF t d assms(1)] assms(2) show ?thesis by auto
  qed
qed

theorem no_reports_without_violations_witness:
  "analyze_outcome (example_env\<lparr>analyze_outcome := Inr \<lparr>violations = Some [], url = Undefined\<rparr>\<rparr>) =
     Inr \<lparr>violations = Some [], url = Undefined\<rparr> \<and>
   violations_length \<lparr>violations = Some [], url = Undefined\<rparr> = 0 \<and>
   generateHtmlReport (example_options\<lparr>generateHtmlReport := Some True,
     generateJsonReport := Some True\<rparr>) = Some True \<and>
   generateJsonReport (example_options\<lparr>generateHtmlReport := Some True,
     generateJsonReport := Some True\<rparr>) = Some True \<and>
   (\<exists>cs. calls (fst (runA11yTestAndGenerateReports
                (example_env\<lparr>analyze_outcome := Inr \<lparr>violations = Some [], url = Undefined\<rparr>\<rparr>)
                (example_options\<lparr>generateHtmlReport := Some True, generateJsonReport := Some True\<rparr>)
                empty_world)) = calls empty_world @ cs \<and>
         list_all (\<lambda>c. \<not> is_report_call c) cs)"
proof -
  have h: "analyze_outcome (example_env\<lparr>analyze_outcome := Inr \<lparr>violations = Some [], url = Undefined\<rparr>\<rparr>) =
     Inr \<lparr>violations = Some [], url = Undefined\<rparr>"
    "violations_length \<lparr>violations = Some [], url = Undefined\<rparr> = 0"
    by (simp_all add: violations_length_def)
  show ?thesis
    using no_reports_without_violations [OF h, of
        "example_options\<lparr>generateHtmlReport := Some True, generateJsonReport := Some True\<rparr>"
        empty_world] h
    by simp
qed

text \<open>
  C5. \<open>countByImpact\<close> counts one occurrence per violation record in the bucket of its
  severity, for each of the four levels: every bucket is the number of records whose
  \<open>impact\<close> is that level. A record whose severity is absent or none of the four levels
  leaves all four buckets as they are. For the severities critical, critical, an unknown
  one and serious the buckets are critical 2, serious 1, moderate 0, minor 0.
\<close>

theorem countByImpact_tallies:
  "countByImpact results =
     \<lparr>critical = count_list (map impact (violations_or_empty results)) (Str ''critical''),
      serious = count_list (map impact (violations_or_empty results)) (Str ''serious''),
      moderate = count_list (map impact (violations_or_empty results)) (Str ''moderate''),
      minor = count_list (map impact (violations_or_empty results)) (Str ''minor'')\<rparr> \<and>
   (impact v \<notin> Str ` set validImpacts \<longrightarrow> count_step c v = c) \<and>
   (map impact vs = [Str ''critical'', Str ''critical'', x, Str ''serious''] \<and>
    x \<notin> Str ` set validImpacts \<longrightarrow>
      countByImpact \<lparr>violations = Some vs, url = u\<rparr> =
        \<lparr>critical = 2, serious = 1, moderate = 0, minor = 0\<rparr>)"
proof (intro conjI impI)
  show "countByImpact results =
     \<lparr>critical = count_list (map impact (violations_or_empty results)) (Str ''critical''),
      serious = count_list (map impact (violations_or_empty results)) (Str ''serious''),
      moderate = count_list (map impact (violations_or_empty results)) (Str ''moderate''),
      minor = count_list (map impact (violations_or_empty results)) (Str ''minor'')\<rparr>"
    by (rule countByImpact_eq)
next
  assume "impact v \<notin> Str ` set validImpacts"
  then show "count_step c v = c" by (rule count_step_unknown)
next
  assume a: "map impact vs = [Str ''critical'', Str ''critical'', x, Str ''serious''] \<and>
    x \<notin> Str ` set validImpacts"
  then have "x \<noteq> Str ''critical''" "x \<noteq> Str ''serious''" "x \<noteq> Str ''moderate''" "x \<noteq> Str ''minor''"
    by (auto simp: validImpacts_def)
  with a show "countByImpact \<lparr>violations = Some vs, url = u\<rparr> =
        \<lparr>critical = 2, serious = 1, moderate = 0, minor = 0\<rparr>"
    by (simp add: countByImpact_eq violations_or_empty_def)
qed

theorem countByImpact_tallies_witness:
  "Undefined \<notin> Str ` set validImpacts \<and>
   count_step \<lparr>critical = 5, serious = 0, moderate = 0, minor = 0\<rparr> (example_violation Undefined) =
     \<lparr>critical = 5, serious = 0, moderate = 0, minor = 0\<rparr> \<and>
   map impact (the (violations example_results)) =
     [Str ''critical'', Str ''critical'', Str ''unknown'', Str ''serious''] \<and>
   Str ''unknown'' \<notin> Str ` set validImpacts \<and>
   countByImpact example_results = \<lparr>critical = 2, serious = 1, moderate = 0, minor = 0\<rparr>"
  using countByImpact_tallies [of example_results "example_violation Undefined"
      "\<lparr>critical = 5, serious = 0, moderate = 0, minor = 0\<rparr>"
      "the (violations example_results)" "Str ''unknown''" "Str ''https://example.org/''"]
  by (simp add: example_results_def example_violation_def validImpacts_def violations_or_empty_def)

text \<open>
  C6. The base name of the reports is \<open>normalized-timestamp\<close>. The first part depends
  on \<open>pageDescription\<close> only. It is lower-cased: the capitals \<open>A\<close> to \<open>Z\<close> become
  \<open>a\<close> to \<open>z\<close>, character by character, every other character below U+0080 stays,
  and a character from U+0080 on stays white space or not as it was and is dropped in
  the end. Each run of white space becomes one hyphen: a description without white space
  is only lower-cased and stripped, and a maximal run of white space between two parts
  joins the normalized parts by a single hyphen. What is left outside \<open>[a-z0-9_-]\<close>,
  the characters \<open>a\<close> to \<open>z\<close>, \<open>0\<close> to \<open>9\<close>, \<open>_\<close> and \<open>-\<close>, is dropped, so that the
  first part has characters of that class only and a description made of such characters
  is kept as it is. The second part is the reading of the clock in ISO form with \<open>:\<close>
  and \<open>.\<close> replaced by hyphens. The description \<open>My Page! 2024\<close> gives
  \<open>my-page-2024-\<close> followed by the time stamp. For two readings of the clock with
  four-digit years, the first earlier than the second by a millisecond or more, the two
  names for one description differ and the first sorts before the second, with any
  common file extension as well.
\<close>

theorem reportBaseName_sortable:
  "reportBaseName t desc =
     strip_unsafe (replace_spaces (toLowerCase desc)) @ ''-'' @ replace_colon_dot (toISOString t) \<and>
   list_all is_name_char (strip_unsafe (replace_spaces (toLowerCase desc))) \<and>
   (list_all is_name_char desc \<longrightarrow> strip_unsafe (replace_spaces (toLowerCase desc)) = desc) \<and>
   reportBaseName t ''My Page! 2024'' = ''my-page-2024-'' @ replace_colon_dot (toISOString t) \<and>
   (four_digit_year t1 \<and> four_digit_year t2 \<and> earlier t1 t2 \<longrightarrow>
      reportBaseName t1 desc \<noteq> reportBaseName t2 desc \<and>
      str_less (reportBaseName t1 desc) (reportBaseName t2 desc) \<and>
      str_less (reportBaseName t1 desc @ ext) (reportBaseName t2 desc @ ext)) \<and>
   toLowerCase ''ABCDEFGHIJKLMNOPQRSTUVWXYZ'' = ''abcdefghijklmnopqrstuvwxyz'' \<and>
   toLowerCase (xs @ ys) = toLowerCase xs @ toLowerCase ys \<and>
   (c \<notin> set ''ABCDEFGHIJKLMNOPQRSTUVWXYZ'' \<and> (of_char c :: nat) < 128 \<longrightarrow> toLowerCase [c] = [c]) \<and>
   (128 \<le> (of_char c :: nat) \<longrightarrow>
      strip_unsafe (toLowerCase [c]) = [] \<and> list_all is_space (toLowerCase [c]) = is_space c) \<and>
   (is_name_char c \<longleftrightarrow> c \<in> set ''abcdefghijklmnopqrstuvwxyz0123456789_-'') \<and>
   strip_unsafe desc = filter (\<lambda>c. c \<in> set ''abcdefghijklmnopqrstuvwxyz0123456789_-'') desc \<and>
   (list_all (\<lambda>c. \<not> is_space c) desc \<longrightarrow>
      replace_spaces desc = desc \<and>
      strip_unsafe (replace_spaces (toLowerCase desc)) = strip_unsafe (toLowerCase desc)) \<and>
   (ws \<noteq> [] \<and> list_all is_space ws \<and> (xs = [] \<or> \<not> is_space (last xs)) \<and>
    (ys = [] \<or> \<not> is_space (hd ys)) \<longrightarrow>
      replace_spaces (xs @ ws @ ys) = replace_spaces xs @ ''-'' @ replace_spaces ys \<and>
      strip_unsafe (replace_spaces (toLowerCase (xs @ ws @ ys))) =
        strip_unsafe (replace_spaces (toLowerCase xs)) @ ''-'' @
        strip_unsafe (replace_spaces (toLowerCase ys))) \<and>
   strip_unsafe (replace_spaces (toLowerCase
     (''  Checkout   PAGE'' @ [char_of (9 :: nat), char_of (10 :: nat)] @ ''Step_2 (QA)  ''))) =
     ''-checkout-page-step_2-qa-'' \<and>
   (0 \<le> year t \<and> year t \<le> 9999 \<longrightarrow>
      replace_colon_dot (toISOString t) =
        pad_digits 4 (nat (year t)) @ ''-'' @ pad_digits 2 (month t) @ ''-'' @ pad_digits 2 (day t) @
        ''T'' @ pad_digits 2 (hours t) @ ''-'' @ pad_digits 2 (minutes t) @ ''-'' @
        pad_digits 2 (seconds t) @ ''-'' @ pad_digits 3 (milliseconds t) @ ''Z'')"
proof (intro conjI impI)
  show "reportBaseName t desc =
     strip_unsafe (replace_spaces (toLowerCase desc)) @ ''-'' @ replace_colon_dot (toISOString t)"
    by (simp add: reportBaseName_def Let_def)
  show "list_all is_name_char (strip_unsafe (replace_spaces (toLowerCase desc)))"
    by (rule strip_unsafe_all)
  show "strip_unsafe (replace_spaces (toLowerCase desc)) = desc" if "list_all is_name_char desc"
    using that by (rule normalize_name_chars)
  have "strip_unsafe (replace_spaces (toLowerCase ''My Page! 2024'')) = ''my-page-2024''"
    by code_simp
  then show "reportBaseName t ''My Page! 2024'' = ''my-page-2024-'' @ replace_colon_dot (toISOString t)"
    by (simp add: reportBaseName_def Let_def)
  show "toLowerCase ''ABCDEFGHIJKLMNOPQRSTUVWXYZ'' = ''abcdefghijklmnopqrstuvwxyz''"
    by (rule toLowerCase_alphabet)
  show "toLowerCase (xs @ ys) = toLowerCase xs @ toLowerCase ys"
    by (rule toLowerCase_append)
  show "toLowerCase [c] = [c]"
    if "c \<notin> set ''ABCDEFGHIJKLMNOPQRSTUVWXYZ'' \<and> (of_char c :: nat) < 128"
    using that by (intro toLowerCase_ascii_other) simp_all
  show "strip_unsafe (toLowerCase [c]) = []" if "128 \<le> (of_char c :: nat)"
    using that by (rule toLowerCase_high)
  show "list_all is_space (toLowerCase [c]) = is_space c"
    by (simp add: toLowerCase_spaces)
  show "is_name_char c \<longleftrightarrow> c \<in> set ''abcdefghijklmnopqrstuvwxyz0123456789_-''"
    by (rule is_name_char_iff)
  show "strip_unsafe desc = filter (\<lambda>c. c \<in> set ''abcdefghijklmnopqrstuvwxyz0123456789_-'') desc"
    unfolding strip_unsafe_def by (rule filter_cong) (simp_all only: is_name_char_iff)
  show "replace_spaces desc = desc" if "list_all (\<lambda>c. \<not> is_space c) desc"
    using that by (rule replace_spaces_no_space)
  show "strip_unsafe (replace_spaces (toLowerCase desc)) = strip_unsafe (toLowerCase desc)"
    if "list_all (\<lambda>c. \<not> is_space c) desc"
    using that by (rule normalized_word)
  show "strip_unsafe (replace_spaces (toLowerCase
     (''  Checkout   PAGE'' @ [char_of (9 :: nat), char_of (10 :: nat)] @ ''Step_2 (QA)  ''))) =
     ''-checkout-page-step_2-qa-''"
    by code_simp
  show "replace_colon_dot (toISOString t) =
        pad_digits 4 (nat (year t)) @ ''-'' @ pad_digits 2 (month t) @ ''-'' @ pad_digits 2 (day t) @
        ''T'' @ pad_digits 2 (hours t) @ ''-'' @ pad_digits 2 (minutes t) @ ''-'' @
        pad_digits 2 (seconds t) @ ''-'' @ pad_digits 3 (milliseconds t) @ ''Z''"
    if "0 \<le> year t \<and> year t \<le> 9999"
    using that by (intro timestamp_four_digit_year) simp_all
next
  assume r: "ws \<noteq> [] \<and> list_all is_space ws \<and> (xs = [] \<or> \<not> is_space (last xs)) \<and>
    (ys = [] \<or> \<not> is_space (hd ys))"
  then show "replace_spaces (xs @ ws @ ys) = replace_spaces xs @ ''-'' @ replace_spaces ys"
    by (intro replace_spaces_run) simp_all
  from r show "strip_unsafe (replace_spaces (toLowerCase (xs @ ws @ ys))) =
        strip_unsafe (replace_spaces (toLowerCase xs)) @ ''-'' @
        strip_unsafe (replace_spaces (toLowerCase ys))"
    by (intro normalized_run) simp_all
next
  assume a: "four_digit_year t1 \<and> four_digit_year t2 \<and> earlier t1 t2"
  then have ts: "str_less (replace_colon_dot (toISOString t1)) (replace_colon_dot (toISOString t2))"
    by (intro timestamp_earlier) simp_all
  have len: "length (replace_colon_dot (toISOString t1)) = length (replace_colon_dot (toISOString t2))"
    using a by (simp add: length_timestamp four_digit_year_def)
  show less: "str_less (reportBaseName t1 desc) (reportBaseName t2 desc)"
    using ts by (simp add: reportBaseName_def Let_def str_less_same_prefix)
  then show "reportBaseName t1 desc \<noteq> reportBaseName t2 desc"
    by (rule str_less_same_length_neq)
  have "length (reportBaseName t1 desc) = length (reportBaseName t2 desc)"
    using len by (simp add: reportBaseName_def Let_def)
  then show "str_less (reportBaseName t1 desc @ ext) (reportBaseName t2 desc @ ext)"
    using less by (rule str_less_same_length_suffix)
qed

theorem reportBaseName_sortable_witness:
  "list_all is_name_char ''my-page_2024'' \<and>
   four_digit_year (now example_env) \<and>
   four_digit_year ((now example_env)\<lparr>milliseconds := 43\<rparr>) \<and>
   earlier (now example_env) ((now example_env)\<lparr>milliseconds := 43\<rparr>) \<and>
   strip_unsafe (replace_spaces (toLowerCase ''my-page_2024'')) = ''my-page_2024'' \<and>
   reportBaseName (now example_env) ''my-page_2024'' \<noteq>
     reportBaseName ((now example_env)\<lparr>milliseconds := 43\<rparr>) ''my-page_2024'' \<and>
   str_less (reportBaseName (now example_env) ''my-page_2024'')
     (reportBaseName ((now example_env)\<lparr>milliseconds := 43\<rparr>) ''my-page_2024'') \<and>
   str_less (reportBaseName (now example_env) ''my-page_2024'' @ ''.json'')
     (reportBaseName ((now example_env)\<lparr>milliseconds := 43\<rparr>) ''my-page_2024'' @ ''.json'') \<and>
   (CHR ''!'' \<notin> set ''ABCDEFGHIJKLMNOPQRSTUVWXYZ'' \<and> (of_char CHR ''!'' :: nat) < 128) \<and>
   toLowerCase [CHR ''!''] = [CHR ''!''] \<and>
   128 \<le> (of_char (char_of (160 :: nat)) :: nat) \<and>
   strip_unsafe (toLowerCase [char_of (160 :: nat)]) = [] \<and>
   list_all is_space (toLowerCase [char_of (160 :: nat)]) = is_space (char_of (160 :: nat)) \<and>
   list_all (\<lambda>c. \<not> is_space c) ''my-page_2024'' \<and>
   replace_spaces ''my-page_2024'' = ''my-page_2024'' \<and>
   (''  '' \<noteq> [] \<and> list_all is_space ''  '' \<and> (''My'' = [] \<or> \<not> is_space (last ''My'')) \<and>
    (''Page'' = [] \<or> \<not> is_space (hd ''Page''))) \<and>
   replace_spaces (''My'' @ ''  '' @ ''Page'') = replace_spaces ''My'' @ ''-'' @ replace_spaces ''Page'' \<and>
   strip_unsafe (replace_spaces (toLowerCase (''My'' @ ''  '' @ ''Page''))) =
     strip_unsafe (replace_spaces (toLowerCase ''My'')) @ ''-'' @
     strip_unsafe (replace_spaces (toLowerCase ''Page'')) \<and>
   (0 \<le> year (now example_env) \<and> year (now example_env) \<le> 9999) \<and>
   replace_colon_dot (toISOString (now example_env)) =
     pad_digits 4 (nat (year (now example_env))) @ ''-'' @ pad_digits 2 (month (now example_env)) @
     ''-'' @ pad_digits 2 (day (now example_env)) @ ''T'' @ pad_digits 2 (hours (now example_env)) @
     ''-'' @ pad_digits 2 (minutes (now example_env)) @ ''-'' @
     pad_digits 2 (seconds (now example_env)) @ ''-'' @
     pad_digits 3 (milliseconds (now example_env)) @ ''Z''"
proof -
  have n: "list_all is_name_char ''my-page_2024''"
    by (simp add: is_name_char_def)
  have h: "four_digit_year (now example_env)"
    "four_digit_year ((now example_env)\<lparr>milliseconds := 43\<rparr>)"
    "earlier (now example_env) ((now example_env)\<lparr>milliseconds := 43\<rparr>)"
    "0 \<le> year (now example_env) \<and> year (now example_env) \<le> 9999"
    by (simp_all add: four_digit_year_def earlier_def example_env_def)
  have c: "CHR ''!'' \<notin> set ''ABCDEFGHIJKLMNOPQRSTUVWXYZ'' \<and> (of_char CHR ''!'' :: nat) < 128"
    "128 \<le> (of_char (char_of (160 :: nat)) :: nat)"
    by simp_all
  have s: "list_all (\<lambda>c. \<not> is_space c) ''my-page_2024''"
    "''  '' \<noteq> [] \<and> list_all is_space ''  '' \<and> (''My'' = [] \<or> \<not> is_space (last ''My'')) \<and>
     (''Page'' = [] \<or> \<not> is_space (hd ''Page''))"
    by (simp_all add: is_space_def)
  show ?thesis
    using reportBaseName_sortable [where t = "now example_env" and desc = "''my-page_2024''"
        and ?t1.0 = "now example_env" and ?t2.0 = "(now example_env)\<lparr>milliseconds := 43\<rparr>"
        and ext = "''.json''" and xs = "''My''" and ys = "''Page''" and c = "CHR ''!''"
        and ws = "''  ''"]
      reportBaseName_sortable [where t = "now example_env" and desc = "''my-page_2024''"
        and ?t1.0 = "now example_env" and ?t2.0 = "(now example_env)\<lparr>milliseconds := 43\<rparr>"
        and ext = "''.json''" and xs = "''My''" and ys = "''Page''" and c = "char_of (160 :: nat)"
        and ws = "''  ''"]
      n h c s
    by blast
qed

text \<open>
  C7, as amended. When the JSON report is due and \<open>fs.writeFile\<close> fails, the run ends
  at once with the error of the failed JSON write. By then the HTML report, which comes
  first, has been attempted if it was due: the calls of the run are the creation of the
  output directory, the call of the scan engine, the summary line unless \<open>logSummary\<close>
  is false, and the due reports, the call of \<open>fs.writeFile\<close> last. The fail logic is
  not reached: the run neither returns the scan result nor raises the error of found
  violations or of an invalid \<open>failImpacts\<close>.
\<close>

theorem report_failure_ends_run:
  assumes "truthy (pageDescription opts)"
    and "getArtifactsDir e (outputDir opts) \<in> set (dirs w) \<or> mkdir_error e = None"
    and "analyze_outcome e = Inr results" and "0 < violations_length results"
    and "generateHtmlReport opts = Some False \<or> createHtmlReport_error e = None"
    and "generateJsonReport opts \<noteq> Some False" and "writeFile_error e = Some m"
  shows "snd (runA11yTestAndGenerateReports e opts w) =
           Inl (ReportWriteFailure (''Failed to write JSON report: '' @ m)) \<and>
         calls (fst (runA11yTestAndGenerateReports e opts w)) =
           calls w @ Mkdir (getArtifactsDir e (outputDir opts)) True #
           Analyze (configured_builder (page opts) (include_sel opts) (exclude_sel opts)
             (tags opts) (disableRules opts)) #
           (if logSummary opts \<noteq> Some False
            then [ConsoleLog (summary_line (template (pageDescription opts))
                    (violations_length results) (countByImpact results))]
            else []) @ due_report_calls e opts results \<and>
         (\<exists>cs. due_report_calls e opts results =
            cs @ [WriteFile (path_join e (getArtifactsDir e (outputDir opts))
                    (reportBaseName (now e) (template (pageDescription opts)) @ ''.json''))
                    results] \<and>
            (generateHtmlReport opts \<noteq> Some False \<longrightarrow>
               (\<exists>options. cs = [CreateHtmlReport results options]))) \<and>
         (\<forall>r. snd (runA11yTestAndGenerateReports e opts w) \<noteq> Inr r) \<and>
         (\<forall>fs msg. snd (runA11yTestAndGenerateReports e opts w) \<noteq>
            Inl (AccessibilityViolationsFound fs msg)) \<and>
         (\<forall>msg. snd (runA11yTestAndGenerateReports e opts w) \<noteq> Inl (InvalidConfiguration msg))"
proof -
  have "snd (write_reports e opts (template (pageDescription opts))
      (getArtifactsDir e (outputDir opts)) results (violations_length results) w) =
     Inl (ReportWriteFailure (''Failed to write JSON report: '' @ m))"
    using assms(4-7) by (intro write_reports_json_fails)
  with run_scan_ok_outcome [OF assms(1-3), of w]
  have out: "snd (runA11yTestAndGenerateReports e opts w) =
      Inl (ReportWriteFailure (''Failed to write JSON report: '' @ m))"
    by simp
  have c: "calls (fst (runA11yTestAndGenerateReports e opts w)) =
           calls w @ Mkdir (getArtifactsDir e (outputDir opts)) True #
           Analyze (configured_builder (page opts) (include_sel opts) (exclude_sel opts)
             (tags opts) (disableRules opts)) #
           (if logSummary opts \<noteq> Some False
            then [ConsoleLog (summary_line (template (pageDescription opts))
                    (violations_length results) (countByImpact results))]
            else []) @ due_report_calls e opts results"
    using assms(5) by (intro run_due_calls assms(1-3)) auto
  have d: "\<exists>cs. due_report_calls e opts results =
            cs @ [WriteFile (path_join e (getArtifactsDir e (outputDir opts))
                    (reportBaseName (now e) (template (pageDescription opts)) @ ''.json''))
                    results] \<and>
            (generateHtmlReport opts \<noteq> Some False \<longrightarrow>
               (\<exists>options. cs = [CreateHtmlReport results options]))"
    using assms(4,6) by (simp add: due_report_calls_def Let_def)
  from out c d show ?thesis by simp
qed

theorem report_failure_ends_run_witness:
  "truthy (pageDescription (example_options\<lparr>failOnViolations := Some False\<rparr>)) \<and>
   (getArtifactsDir (example_env\<lparr>writeFile_error := Some ''EROFS''\<rparr>)
      (outputDir (example_options\<lparr>failOnViolations := Some False\<rparr>)) \<in> set (dirs empty_world) \<or>
    mkdir_error (example_env\<lparr>writeFile_error := Some ''EROFS''\<rparr>) = None) \<and>
   analyze_outcome (example_env\<lparr>writeFile_error := Some ''EROFS''\<rparr>) = Inr example_results \<and>
   0 < violations_length example_results \<and>
   (generateHtmlReport (example_options\<lparr>failOnViolations := Some False\<rparr>) = Some False \<or>
    createHtmlReport_error (example_env\<lparr>writeFile_error := Some ''EROFS''\<rparr>) = None) \<and>
   generateJsonReport (example_options\<lparr>failOnViolations := Some False\<rparr>) \<noteq> Some False \<and>
   writeFile_error (example_env\<lparr>writeFile_error := Some ''EROFS''\<rparr>) = Some ''EROFS'' \<and>
   snd (runA11yTestAndGenerateReports (example_env\<lparr>writeFile_error := Some ''EROFS''\<rparr>)
          (example_options\<lparr>failOnViolations := Some False\<rparr>) empty_world) =
     Inl (ReportWriteFailure (''Failed to write JSON report: '' @ ''EROFS'')) \<and>
   (\<forall>r. snd (runA11yTestAndGenerateReports (example_env\<lparr>writeFile_error := Some ''EROFS''\<rparr>)
          (example_options\<lparr>failOnViolations := Some False\<rparr>) empty_world) \<noteq> Inr r) \<and>
   calls (fst (runA11yTestAndGenerateReports (example_env\<lparr>writeFile_error := Some ''EROFS''\<rparr>)
          (example_options\<lparr>failOnViolations := Some False\<rparr>) empty_world)) =
     [Mkdir ''/repo/artifacts/accessibility'' True,
      Analyze \<lparr>b_page = 0, b_include = [], b_exclude = [], b_disabled = [],
               b_tags = [''wcag2a'', ''wcag2aa'', ''wcag21a'', ''wcag21aa'']\<rparr>,
      ConsoleLog ''[A11Y] My Page! 2024 -> total=4 (critical=2, serious=1, moderate=0, minor=0)'',
      CreateHtmlReport example_results
        [(''projectKey'', ''My Page! 2024''),
         (''reportFileName'', ''my-page-2024-2024-03-09T07-05-01-042Z.html''),
         (''outputDirPath'', ''/repo/artifacts/accessibility''),
         (''outputDir'', ''.'')],
      WriteFile ''/repo/artifacts/accessibility/my-page-2024-2024-03-09T07-05-01-042Z.json''
        example_results]"
proof -
  let ?e = "example_env\<lparr>writeFile_error := Some ''EROFS''\<rparr>"
  let ?o = "example_options\<lparr>failOnViolations := Some False\<rparr>"
  have t: "truthy (pageDescription ?o)"
    and d: "getArtifactsDir ?e (outputDir ?o) \<in> set (dirs empty_world) \<or> mkdir_error ?e = None"
    and a: "analyze_outcome ?e = Inr example_results"
    and n: "0 < violations_length example_results"
    and g: "generateHtmlReport ?o = Some False \<or> createHtmlReport_error ?e = None"
      "generateJsonReport ?o \<noteq> Some False" "writeFile_error ?e = Some ''EROFS''"
    by (simp_all add: example_options_def example_env_def example_results_def violations_length_def)
  have c: "calls empty_world @ Mkdir (getArtifactsDir ?e (outputDir ?o)) True #
      Analyze (configured_builder (page ?o) (include_sel ?o) (exclude_sel ?o) (tags ?o)
        (disableRules ?o)) #
      (if logSummary ?o \<noteq> Some False
       then [ConsoleLog (summary_line (template (pageDescription ?o))
               (violations_length example_results) (countByImpact example_results))]
       else []) @ due_report_calls ?e ?o example_results =
     [Mkdir ''/repo/artifacts/accessibility'' True,
      Analyze \<lparr>b_page = 0, b_include = [], b_exclude = [], b_disabled = [],
               b_tags = [''wcag2a'', ''wcag2aa'', ''wcag21a'', ''wcag21aa'']\<rparr>,
      ConsoleLog ''[A11Y] My Page! 2024 -> total=4 (critical=2, serious=1, moderate=0, minor=0)'',
      CreateHtmlReport example_results
        [(''projectKey'', ''My Page! 2024''),
         (''reportFileName'', ''my-page-2024-2024-03-09T07-05-01-042Z.html''),
         (''outputDirPath'', ''/repo/artifacts/accessibility''),
         (''outputDir'', ''.'')],
      WriteFile ''/repo/artifacts/accessibility/my-page-2024-2024-03-09T07-05-01-042Z.json''
        example_results]"
    by code_simp
  note r = report_failure_ends_run [OF t d a n g]
  from r [unfolded c] t d a n g show ?thesis by blast
qed

theorem report_failure_ends_run_counterexample:
  "failOnViolations (example_options\<lparr>failOnViolations := Some False\<rparr>) = Some False \<and>
   configured_impacts (example_options\<lparr>failOnViolations := Some False\<rparr>) = Array [''critical''] \<and>
   analyze_outcome (example_env\<lparr>writeFile_error := Some ''EROFS''\<rparr>) = Inr example_results \<and>
   snd (runA11yTestAndGenerateReports (example_env\<lparr>writeFile_error := Some ''EROFS''\<rparr>)
          (example_options\<lparr>failOnViolations := Some False\<rparr>) empty_world) =
     Inl (ReportWriteFailure ''Failed to write JSON report: EROFS'') \<and>
   snd (runA11yTestAndGenerateReports (example_env\<lparr>writeFile_error := Some ''EROFS''\<rparr>)
          (example_options\<lparr>failOnViolations := Some False\<rparr>) empty_world) \<noteq> Inr example_results"
  by code_simp

text \<open>
  C8, as amended. For every configuration whose \<open>pageDescription\<close> is a non-empty
  string and whose \<open>failImpacts\<close>, left out or given, is an array of known levels,
  \<open>runA11yTestAndGenerateReports\<close> never raises the error of an invalid configuration.
\<close>

theorem valid_configuration_accepted:
  assumes "truthy (pageDescription opts)" and "configured_impacts opts = Array impacts"
    and "set impacts \<subseteq> set validImpacts"
  shows "\<forall>m. snd (runA11yTestAndGenerateReports e opts w) \<noteq> Inl (InvalidConfiguration m)"
proof (cases e opts w rule: run_outcome_cases)
  case (Decision results hp jp)
  then show ?thesis
    by (simp add: fail_logic_valid [OF assms(2,3)])
qed (use assms in simp_all)

theorem valid_configuration_accepted_witness:
  "truthy (pageDescription example_options) \<and>
   configured_impacts example_options = Array [''critical''] \<and>
   set [''critical''] \<subseteq> set validImpacts \<and>
   truthy (pageDescription (example_options\<lparr>failImpacts := None\<rparr>)) \<and>
   configured_impacts (example_options\<lparr>failImpacts := None\<rparr>) = Array DEFAULT_FAIL_IMPACTS \<and>
   set DEFAULT_FAIL_IMPACTS \<subseteq> set validImpacts \<and>
   (\<forall>m. snd (runA11yTestAndGenerateReports example_env example_options empty_world) \<noteq>
      Inl (InvalidConfiguration m)) \<and>
   (\<forall>m. snd (runA11yTestAndGenerateReports example_env (example_options\<lparr>failImpacts := None\<rparr>)
              empty_world) \<noteq> Inl (InvalidConfiguration m))"
proof -
  have h: "truthy (pageDescription example_options)"
    "configured_impacts example_options = Array [''critical'']"
    "set [''critical''] \<subseteq> set validImpacts"
    by (simp_all add: example_options_def configured_impacts_def validImpacts_def)
  have h': "truthy (pageDescription (example_options\<lparr>failImpacts := None\<rparr>))"
    "configured_impacts (example_options\<lparr>failImpacts := None\<rparr>) = Array DEFAULT_FAIL_IMPACTS"
    "set DEFAULT_FAIL_IMPACTS \<subseteq> set validImpacts"
    by (simp_all add: example_options_def configured_impacts_def validImpacts_def
        DEFAULT_FAIL_IMPACTS_def)
  show ?thesis
    using valid_configuration_accepted [OF h, of example_env empty_world]
      valid_configuration_accepted [OF h', of example_env empty_world] h h'
    by blast
qed

theorem valid_configuration_accepted_counterexample:
  "truthy (pageDescription (example_options\<lparr>failImpacts := Some (Array [''high''])\<rparr>)) \<and>
   snd (runA11yTestAndGenerateReports example_env
          (example_options\<lparr>failImpacts := Some (Array [''high''])\<rparr>) empty_world) =
     Inl (InvalidConfiguration
       ''Invalid impact levels: high. Valid values are: critical, serious, moderate, minor'')"
  by code_simp

text \<open>
  C9. In every run that passes the validation of \<open>pageDescription\<close>, the first call is
  \<open>fs.mkdir\<close> of the output directory with \<open>recursive\<close> set, before the scan: if the
  directory exists or can be created, it exists when the run ends, the call of the scan
  engine comes next, and no error of the file system ends the run, whatever the scan
  returns and whatever \<open>generateHtmlReport\<close> and \<open>generateJsonReport\<close> are; if it
  cannot be created, the run ends with that error and the scan engine is not called.
  \<open>ensureDir\<close> on a directory that exists succeeds.
\<close>

theorem output_directory_created_before_scan:
  assumes "truthy (pageDescription opts)"
  shows "(\<exists>cs. calls (fst (runA11yTestAndGenerateReports e opts w)) =
            calls w @ Mkdir (getArtifactsDir e (outputDir opts)) True # cs) \<and>
         (getArtifactsDir e (outputDir opts) \<in> set (dirs w) \<or> mkdir_error e = None \<longrightarrow>
            getArtifactsDir e (outputDir opts) \<in> set (dirs (fst (runA11yTestAndGenerateReports e opts w))) \<and>
            (\<exists>cs. calls (fst (runA11yTestAndGenerateReports e opts w)) =
               calls w @ Mkdir (getArtifactsDir e (outputDir opts)) True #
               Analyze (configured_builder (page opts) (include_sel opts) (exclude_sel opts)
                 (tags opts) (disableRules opts)) # cs) \<and>
            (\<forall>m. snd (runA11yTestAndGenerateReports e opts w) \<noteq> Inl (FsError m))) \<and>
         (getArtifactsDir e (outputDir opts) \<notin> set (dirs w) \<and> mkdir_error e = Some m \<longrightarrow>
            runA11yTestAndGenerateReports e opts w =
              (record_call (Mkdir (getArtifactsDir e (outputDir opts)) True) w, Inl (FsError m))) \<and>
         (d \<in> set (dirs w) \<longrightarrow> snd (ensureDir e d w) = Inr ())"
proof -
  let ?d = "getArtifactsDir e (outputDir opts)"
  let ?run = "runA11yTestAndGenerateReports e opts w"
  let ?b = "configured_builder (page opts) (include_sel opts) (exclude_sel opts) (tags opts)
    (disableRules opts)"
  have ok: "?d \<in> set (dirs (fst ?run)) \<and>
      (\<exists>cs. calls (fst ?run) = calls w @ Mkdir ?d True # Analyze ?b # cs) \<and>
      (\<forall>m. snd ?run \<noteq> Inl (FsError m))"
    if d: "?d \<in> set (dirs w) \<or> mkdir_error e = None"
  proof (cases "analyze_outcome e")
    case (Inl m')
    have "dirs (fst ?run) = (if ?d \<in> set (dirs w) then dirs w else ?d # dirs w)"
      using assms d Inl
      by (auto simp: runA11yTestAndGenerateReports_def validatePageDescription_truthy ensureDir_def
          fs_mkdir_def runAxeScan_def record_call_def Let_def)
    then have "?d \<in> set (dirs (fst ?run))" by simp
    moreover from run_scan_fails [OF assms d Inl]
    have "\<exists>cs. calls (fst ?run) = calls w @ Mkdir ?d True # Analyze ?b # cs" by simp
    ultimately show ?thesis using run_not_fs_error [OF assms d] by blast
  next
    case (Inr results)
    from run_scan_ok_calls [OF assms d Inr]
    have "?d \<in> set (dirs (fst ?run))"
      "\<exists>cs. calls (fst ?run) = calls w @ Mkdir ?d True # Analyze ?b # cs"
      by auto
    then show ?thesis using run_not_fs_error [OF assms d] by blast
  qed
  have fails: "?run = (record_call (Mkdir ?d True) w, Inl (FsError m))"
    if "?d \<notin> set (dirs w) \<and> mkdir_error e = Some m"
    using that by (intro run_mkdir_fails assms) simp_all
  have first: "\<exists>cs. calls (fst ?run) = calls w @ Mkdir ?d True # cs"
  proof (cases "?d \<in> set (dirs w) \<or> mkdir_error e = None")
    case True
    from ok [OF this] show ?thesis by blast
  next
    case False
    then obtain m' where "?d \<notin> set (dirs w)" "mkdir_error e = Some m'" by auto
    from run_mkdir_fails [OF assms this] show ?thesis by (simp add: record_call_def)
  qed
  have existing: "snd (ensureDir e d w) = Inr ()" if "d \<in> set (dirs w)"
    using that by (simp add: ensureDir_existing)
  from first ok fails existing show ?thesis by blast
qed

theorem output_directory_created_before_scan_witness:
  "truthy (pageDescription (example_options\<lparr>generateHtmlReport := Some False,
     generateJsonReport := Some False\<rparr>)) \<and>
   mkdir_error (example_env\<lparr>analyze_outcome := Inr \<lparr>violations = Some [], url = Undefined\<rparr>\<rparr>) = None \<and>
   ''/repo/artifacts/accessibility'' \<in> set (dirs (fst (runA11yTestAndGenerateReports
      (example_env\<lparr>analyze_outcome := Inr \<lparr>violations = Some [], url = Undefined\<rparr>\<rparr>)
      (example_options\<lparr>generateHtmlReport := Some False, generateJsonReport := Some False\<rparr>)
      empty_world))) \<and>
   (\<exists>cs. calls (fst (runA11yTestAndGenerateReports
      (example_env\<lparr>analyze_outcome := Inr \<lparr>violations = Some [], url = Undefined\<rparr>\<rparr>)
      (example_options\<lparr>generateHtmlReport := Some False, generateJsonReport := Some False\<rparr>)
      empty_world)) =
      Mkdir ''/repo/artifacts/accessibility'' True #
      Analyze (configured_builder 0 None None None None) # cs) \<and>
   ''/repo/artifacts/accessibility'' \<notin> set (dirs empty_world) \<and>
   mkdir_error (example_env\<lparr>mkdir_error := Some ''EACCES''\<rparr>) = Some ''EACCES'' \<and>
   runA11yTestAndGenerateReports (example_env\<lparr>mkdir_error := Some ''EACCES''\<rparr>) example_options
     empty_world =
     (record_call (Mkdir ''/repo/artifacts/accessibility'' True) empty_world, Inl (FsError ''EACCES'')) \<and>
   ''/repo/artifacts/accessibility'' \<in> set (dirs \<lparr>dirs = [''/repo/artifacts/accessibility''], calls = []\<rparr>) \<and>
   snd (ensureDir (example_env\<lparr>mkdir_error := Some ''EACCES''\<rparr>) ''/repo/artifacts/accessibility''
          \<lparr>dirs = [''/repo/artifacts/accessibility''], calls = []\<rparr>) = Inr ()"
proof -
  let ?e = "example_env\<lparr>analyze_outcome := Inr \<lparr>violations = Some [], url = Undefined\<rparr>\<rparr>"
  let ?o = "example_options\<lparr>generateHtmlReport := Some False, generateJsonReport := Some False\<rparr>"
  let ?e' = "example_env\<lparr>mkdir_error := Some ''EACCES''\<rparr>"
  have t: "truthy (pageDescription ?o)" "truthy (pageDescription example_options)"
    by (simp_all add: example_options_def)
  have g: "getArtifactsDir ?e (outputDir ?o) = ''/repo/artifacts/accessibility''"
    "getArtifactsDir ?e' (outputDir example_options) = ''/repo/artifacts/accessibility''"
    by (simp_all add: getArtifactsDir_def example_env_def example_options_def
        DEFAULT_OUTPUT_DIR_def)
  have o: "page ?o = 0" "include_sel ?o = None" "exclude_sel ?o = None" "tags ?o = None"
    "disableRules ?o = None"
    by (simp_all add: example_options_def)
  have m: "mkdir_error ?e = None" "mkdir_error ?e' = Some ''EACCES''"
    "''/repo/artifacts/accessibility'' \<notin> set (dirs empty_world)"
    "calls empty_world = []"
    "''/repo/artifacts/accessibility'' \<in> set (dirs \<lparr>dirs = [''/repo/artifacts/accessibility''], calls = []\<rparr>)"
    by (simp_all add: example_env_def empty_world_def)
  note a = output_directory_created_before_scan [OF t(1), of ?e empty_world, unfolded g o]
  note b = output_directory_created_before_scan [OF t(2), of ?e' empty_world "''EACCES''"
      "''/repo/artifacts/accessibility''", unfolded g]
  note c = output_directory_created_before_scan [OF t(2), of ?e'
      "\<lparr>dirs = [''/repo/artifacts/accessibility''], calls = []\<rparr>" _
      "''/repo/artifacts/accessibility''"]
  from a b c t m show ?thesis
    by (simp only: append_Nil) blast
qed

text \<open>
  C10. The count that \<open>expectNoViolations\<close> returns, which is also the total that
  \<open>runA11yTestAndGenerateReports\<close> prints in its summary line and tests before it
  writes reports, is the number of all violation records, those with an absent or
  unrecognised severity included. The four counts of \<open>countByImpact\<close> together with the
  number of records of no recognised severity add up to it; so their sum is at most the
  total, and less when some record has no recognised severity.
\<close>

theorem violation_count_counts_every_record:
  "snd (expectNoViolations results) = length (violations_or_empty results) \<and>
   violations_length results = snd (expectNoViolations results) \<and>
   critical (countByImpact results) + serious (countByImpact results) +
     moderate (countByImpact results) + minor (countByImpact results) +
     length (filter (\<lambda>v. impact v \<notin> Str ` set validImpacts) (violations_or_empty results)) =
     snd (expectNoViolations results) \<and>
   critical (countByImpact results) + serious (countByImpact results) +
     moderate (countByImpact results) + minor (countByImpact results) \<le>
     snd (expectNoViolations results) \<and>
   ((\<exists>v \<in> set (violations_or_empty results). impact v \<notin> Str ` set validImpacts) \<longrightarrow>
     critical (countByImpact results) + serious (countByImpact results) +
       moderate (countByImpact results) + minor (countByImpact results) <
       snd (expectNoViolations results)) \<and>
   (truthy (pageDescription opts) \<and>
    (getArtifactsDir e (outputDir opts) \<in> set (dirs w) \<or> mkdir_error e = None) \<and>
    analyze_outcome e = Inr results \<longrightarrow>
      (logSummary opts \<noteq> Some False \<longrightarrow>
         ConsoleLog (summary_line (template (pageDescription opts))
           (snd (expectNoViolations results)) (countByImpact results))
         \<in> set (calls (fst (runA11yTestAndGenerateReports e opts w)))) \<and>
      (generateHtmlReport opts \<noteq> Some False \<and> 0 < snd (expectNoViolations results) \<longrightarrow>
         (\<exists>c \<in> set (calls (fst (runA11yTestAndGenerateReports e opts w))). is_report_call c)))"
proof -
  let ?vs = "violations_or_empty results"
  let ?sum = "critical (countByImpact results) + serious (countByImpact results) +
     moderate (countByImpact results) + minor (countByImpact results)"
  let ?unknown = "filter (\<lambda>v. impact v \<notin> Str ` set validImpacts) ?vs"
  have n: "snd (expectNoViolations results) = length ?vs"
    by (rule expectNoViolations_count)
  have total: "?sum + length ?unknown = length ?vs"
    by (rule counts_sum)
  have less: "?sum < length ?vs" if "\<exists>v \<in> set ?vs. impact v \<notin> Str ` set validImpacts"
  proof -
    from that have "?unknown \<noteq> []" by (simp add: filter_empty_conv)
    then have "0 < length ?unknown" by simp
    with total show ?thesis by linarith
  qed
  have run: "(logSummary opts \<noteq> Some False \<longrightarrow>
         ConsoleLog (summary_line (template (pageDescription opts))
           (length ?vs) (countByImpact results))
         \<in> set (calls (fst (runA11yTestAndGenerateReports e opts w)))) \<and>
      (generateHtmlReport opts \<noteq> Some False \<and> 0 < length ?vs \<longrightarrow>
         (\<exists>c \<in> set (calls (fst (runA11yTestAndGenerateReports e opts w))). is_report_call c))"
    if ok: "truthy (pageDescription opts)"
      "getArtifactsDir e (outputDir opts) \<in> set (dirs w) \<or> mkdir_error e = None"
      "analyze_outcome e = Inr results"
  proof (intro conjI impI)
    assume "logSummary opts \<noteq> Some False"
    with run_scan_ok_calls [OF ok]
    show "ConsoleLog (summary_line (template (pageDescription opts))
           (length ?vs) (countByImpact results))
         \<in> set (calls (fst (runA11yTestAndGenerateReports e opts w)))"
      by (auto simp: violations_length_eq)
  next
    assume "generateHtmlReport opts \<noteq> Some False \<and> 0 < length ?vs"
    then have "0 < violations_length results" "generateHtmlReport opts \<noteq> Some False"
      by (simp_all add: violations_length_eq)
    from run_scan_ok_html_called [OF ok this]
    show "\<exists>c \<in> set (calls (fst (runA11yTestAndGenerateReports e opts w))). is_report_call c"
      by (rule bexI [rotated]) simp
  qed
  show ?thesis
    unfolding n using total less run by (simp add: violations_length_eq)
qed

theorem violation_count_counts_every_record_witness:
  "(\<exists>v \<in> set (violations_or_empty example_results). impact v \<notin> Str ` set validImpacts) \<and>
   truthy (pageDescription example_options) \<and> mkdir_error example_env = None \<and>
   analyze_outcome example_env = Inr example_results \<and>
   logSummary example_options \<noteq> Some False \<and> generateHtmlReport example_options \<noteq> Some False \<and>
   snd (expectNoViolations example_results) = 4 \<and>
   critical (countByImpact example_results) + serious (countByImpact example_results) +
     moderate (countByImpact example_results) + minor (countByImpact example_results) <
     snd (expectNoViolations example_results) \<and>
   ConsoleLog (summary_line (template (pageDescription example_options))
       (snd (expectNoViolations example_results)) (countByImpact example_results))
     \<in> set (calls (fst (runA11yTestAndGenerateReports example_env example_options empty_world))) \<and>
   (\<exists>c \<in> set (calls (fst (runA11yTestAndGenerateReports example_env example_options empty_world))).
      is_report_call c)"
proof -
  have u: "\<exists>v \<in> set (violations_or_empty example_results). impact v \<notin> Str ` set validImpacts"
    by (simp add: example_results_def example_violation_def violations_or_empty_def
        validImpacts_def)
  have h: "truthy (pageDescription example_options)" "mkdir_error example_env = None"
    "analyze_outcome example_env = Inr example_results"
    "logSummary example_options \<noteq> Some False" "generateHtmlReport example_options \<noteq> Some False"
    by (simp_all add: example_options_def example_env_def)
  have n: "length (violations_or_empty example_results) = 4"
    by (simp add: example_results_def violations_or_empty_def)
  show ?thesis
    using violation_count_counts_every_record [of example_results example_options example_env
        empty_world] u h n
    by auto
qed

end
